theory Spec2Isabelle
  imports Main "HOL-Library.Sublist"
begin

section \<open>Python values and errors\<close>

text \<open>
  The session file is JSON; \<open>json.load\<close> turns it into Python values. Numbers are
  restricted to integers here. A \<open>dict\<close> is an association list in insertion order
  (keys are hashable values; those of a decoded JSON object are strings).
  Hashable keys are kept in canonical form, since \<open>True == 1\<close> and \<open>False == 0\<close>
  are the same key.
\<close>

datatype pykey = KNone | KInt int | KStr string

datatype pyval =
    PNone
  | PBool bool
  | PInt int
  | PStr string
  | PList "pyval list"
  | PDict "(pykey \<times> pyval) list"

datatype error =
    TypeError
  | AttributeError
  | ValueError
  | KeyError
  | AssertionError
  | UnicodeDecodeError
  | CookieError
  | OverflowError

definition ebind :: "error + 'a \<Rightarrow> ('a \<Rightarrow> error + 'b) \<Rightarrow> error + 'b" where
  "ebind m f = (case m of Inl e \<Rightarrow> Inl e | Inr x \<Rightarrow> f x)"

text \<open>\<open>d[k] = v\<close> on a dict: an existing key keeps its position.\<close>

fun dict_set :: "('k \<times> 'v) list \<Rightarrow> 'k \<Rightarrow> 'v \<Rightarrow> ('k \<times> 'v) list" where
  "dict_set [] k v = [(k, v)]"
| "dict_set ((k', v') # kvs) k v =
     (if k' = k then (k', v) # kvs else (k', v') # dict_set kvs k v)"

text \<open>\<open>d.update(other)\<close>, also the meaning of \<open>{**d, **other}\<close>.\<close>

fun dict_update :: "('k \<times> 'v) list \<Rightarrow> ('k \<times> 'v) list \<Rightarrow> ('k \<times> 'v) list" where
  "dict_update d [] = d"
| "dict_update d ((k, v) # kvs) = dict_update (dict_set d k v) kvs"

text \<open>\<open>d.get(k, default)\<close>.\<close>

definition dict_get :: "('k \<times> 'v) list \<Rightarrow> 'k \<Rightarrow> 'v \<Rightarrow> 'v" where
  "dict_get d k dflt = (case map_of d k of None \<Rightarrow> dflt | Some v \<Rightarrow> v)"

text \<open>Truth value of a Python object (\<open>bool(x)\<close>).\<close>

fun py_truthy :: "pyval \<Rightarrow> bool" where
  "py_truthy PNone = False"
| "py_truthy (PBool b) = b"
| "py_truthy (PInt n) = (n \<noteq> 0)"
| "py_truthy (PStr s) = (s \<noteq> [])"
| "py_truthy (PList xs) = (xs \<noteq> [])"
| "py_truthy (PDict kvs) = (kvs \<noteq> [])"

text \<open>\<open>str.lower\<close> on the ASCII range (strings are byte strings here).\<close>

definition lower_char :: "char \<Rightarrow> char" where
  "lower_char c =
     (case map_of (zip ''ABCDEFGHIJKLMNOPQRSTUVWXYZ'' ''abcdefghijklmnopqrstuvwxyz'') c of
        None \<Rightarrow> c
      | Some l \<Rightarrow> l)"

definition lower :: "string \<Rightarrow> string" where
  "lower s = map lower_char s"

text \<open>\<open>s.startswith(p)\<close> and \<open>s.endswith(p)\<close>.\<close>

definition startswith :: "string \<Rightarrow> string \<Rightarrow> bool" where
  "startswith s p = (take (length p) s = p)"

definition endswith :: "string \<Rightarrow> string \<Rightarrow> bool" where
  "endswith s p = (length p \<le> length s \<and> drop (length s - length p) s = p)"

section \<open>The cookie jar\<close>

text \<open>
  The jar is \<open>requests.cookies.RequestsCookieJar\<close>, a library class. What the session
  code relies on is modelled here: a cookie object with the attributes the code reads, the
  nested \<open>domain \<rightarrow> path \<rightarrow> name\<close> dictionaries of \<open>http.cookiejar.CookieJar\<close> in
  insertion order, and the operations \<open>set\<close>, \<open>set_cookie\<close>, iteration and
  \<open>remove_cookie_by_name\<close>. The numeric conversions of the \<open>Cookie\<close> constructor
  (\<open>int(version)\<close>, \<open>int(float(expires))\<close>) belong to the interpreter and are parameters
  (\<open>lib_int\<close>, \<open>lib_int_float\<close>), as are \<open>bytes.decode\<close>, the \<open>SimpleCookie\<close> parser
  of \<open>http.cookies\<close> (giving the morsels of a \<open>Cookie\<close> header value in order), the
  clock-dependent expiry of a morsel, \<open>os.path.sep\<close>, \<open>os.path.expanduser\<close> and
  \<open>httpie.utils.url_as_host\<close>.
\<close>

record morsel =
  m_key :: string
  m_value :: string
  m_path :: string
  m_domain :: string
  m_secure :: pyval
  m_httponly :: pyval
  m_version :: pyval
  m_comment :: pyval

record pylib =
  lib_int :: "pyval \<Rightarrow> error + int"
  lib_int_float :: "pyval \<Rightarrow> error + int"
  lib_decode :: "string \<Rightarrow> error + string"
  lib_simple_cookie :: "string \<Rightarrow> error + morsel list"
  lib_morsel_expires :: "morsel \<Rightarrow> error + pyval"
  lib_sep :: char
  lib_expanduser :: "string \<Rightarrow> string"
  lib_url_as_host :: "string \<Rightarrow> string"

record cookie =
  ck_name :: pyval
  ck_value :: pyval
  ck_domain :: string
  ck_path :: pyval
  ck_expires :: pyval
  ck_secure :: pyval
  ck_rest :: pyval

text \<open>\<open>hash(x)\<close>: lists and dictionaries are unhashable.\<close>

fun py_key :: "pyval \<Rightarrow> error + pykey" where
  "py_key PNone = Inr KNone"
| "py_key (PBool b) = Inr (KInt (if b then 1 else 0))"
| "py_key (PInt n) = Inr (KInt n)"
| "py_key (PStr s) = Inr (KStr s)"
| "py_key (PList xs) = Inl TypeError"
| "py_key (PDict kvs) = Inl TypeError"

fun key_val :: "pykey \<Rightarrow> pyval" where
  "key_val KNone = PNone"
| "key_val (KInt n) = PInt n"
| "key_val (KStr s) = PStr s"

type_synonym jar = "(string \<times> (pykey \<times> (pykey \<times> cookie) list) list) list"

text \<open>Iteration over the jar (\<open>deepvalues\<close>): domain by domain, path by path.\<close>

definition jar_iter :: "jar \<Rightarrow> cookie list" where
  "jar_iter J = concat (map (\<lambda>(d, c2). concat (map (\<lambda>(p, c3). map snd c3) c2)) J)"

text \<open>
  \<open>CookieJar.set_cookie\<close>: \<open>c[domain][path][name] = cookie\<close>, creating the inner
  dictionaries on demand; path and name must be hashable.
\<close>

definition jar_put :: "jar \<Rightarrow> string \<Rightarrow> pykey \<Rightarrow> pykey \<Rightarrow> cookie \<Rightarrow> jar" where
  "jar_put J d p n c =
     (let c2 = dict_get J d [];
          c3 = dict_get c2 p []
      in dict_set J d (dict_set c2 p (dict_set c3 n c)))"

definition cookiejar_set_cookie :: "jar \<Rightarrow> cookie \<Rightarrow> error + jar" where
  "cookiejar_set_cookie J c =
     ebind (py_key (ck_path c)) (\<lambda>p.
     ebind (py_key (ck_name c)) (\<lambda>n. Inr (jar_put J (ck_domain c) p n c)))"

text \<open>\<open>value.replace('\\"', '')\<close>: every backslash-quote pair is deleted, left to right.\<close>

fun strip_escaped_quotes :: "string \<Rightarrow> string" where
  "strip_escaped_quotes (a # b # cs) =
     (if a = CHR 0x5C \<and> b = CHR 0x22 then strip_escaped_quotes cs
      else a # strip_escaped_quotes (b # cs))"
| "strip_escaped_quotes cs = cs"

text \<open>
  \<open>RequestsCookieJar.set_cookie\<close>: a string value that starts and ends with a double
  quote loses its escaped quotes, then the cookie is stored.
\<close>

definition set_cookie :: "jar \<Rightarrow> cookie \<Rightarrow> error + jar" where
  "set_cookie J c =
     cookiejar_set_cookie J
       (case ck_value c of
          PStr v \<Rightarrow>
            if startswith v [CHR 0x22] \<and> endswith v [CHR 0x22]
            then c\<lparr>ck_value := PStr (strip_escaped_quotes v)\<rparr> else c
        | _ \<Rightarrow> c)"

definition cookie_kwargs :: "string list" where
  "cookie_kwargs = [''version'', ''name'', ''value'', ''port'', ''domain'', ''path'', ''secure'',
     ''expires'', ''discard'', ''comment'', ''comment_url'', ''rest'', ''rfc2109'']"

text \<open>
  The conversions of the \<open>Cookie\<close> constructor. \<open>int(version)\<close> is the identity on
  integers and booleans; \<open>int(float(expires))\<close> is exact on integers of magnitude up to
  \<open>2 ^ 53\<close>. Everything else is left to the interpreter.
\<close>

definition cookie_version :: "pylib \<Rightarrow> pyval \<Rightarrow> error + pyval" where
  "cookie_version L v =
     (case v of
        PNone \<Rightarrow> Inr PNone
      | PInt n \<Rightarrow> Inr (PInt n)
      | PBool b \<Rightarrow> Inr (PInt (if b then 1 else 0))
      | _ \<Rightarrow> ebind (lib_int L v) (\<lambda>n. Inr (PInt n)))"

definition cookie_expires :: "pylib \<Rightarrow> pyval \<Rightarrow> error + pyval" where
  "cookie_expires L v =
     (case v of
        PNone \<Rightarrow> Inr PNone
      | PInt n \<Rightarrow>
          if \<bar>n\<bar> \<le> 2 ^ 53 then Inr (PInt n)
          else ebind (lib_int_float L v) (\<lambda>n. Inr (PInt n))
      | PBool b \<Rightarrow> Inr (PInt (if b then 1 else 0))
      | _ \<Rightarrow> ebind (lib_int_float L v) (\<lambda>n. Inr (PInt n)))"

text \<open>
  \<open>requests.cookies.create_cookie\<close> followed by the \<open>Cookie\<close> constructor: unknown
  keywords are a \<open>TypeError\<close>, \<open>domain.startswith\<close> needs a string, \<open>version\<close> and
  \<open>expires\<close> are converted, the domain is lower-cased.
\<close>

definition create_cookie ::
  "pylib \<Rightarrow> pyval \<Rightarrow> pyval \<Rightarrow> (string \<times> pyval) list \<Rightarrow> error + cookie" where
  "create_cookie L name val kwargs =
     (if \<not> list_all (\<lambda>k. k \<in> set cookie_kwargs) (map fst kwargs) then Inl TypeError
      else case dict_get kwargs ''domain'' (PStr []) of
        PStr dmn \<Rightarrow>
          ebind (cookie_version L (dict_get kwargs ''version'' (PInt 0))) (\<lambda>_.
          ebind (cookie_expires L (dict_get kwargs ''expires'' PNone)) (\<lambda>expires.
            Inr \<lparr>ck_name = name, ck_value = val, ck_domain = lower dmn,
                 ck_path = dict_get kwargs ''path'' (PStr ''/''),
                 ck_expires = expires,
                 ck_secure = dict_get kwargs ''secure'' (PBool False),
                 ck_rest = dict_get kwargs ''rest'' (PDict [(KStr ''HttpOnly'', PNone)])\<rparr>))
      | _ \<Rightarrow> Inl AttributeError)"

text \<open>
  \<open>remove_cookie_by_name(jar, name, domain, path)\<close>: every cookie with that name (and
  that domain and path, where given) is deleted from its innermost dictionary.
\<close>

definition cookie_matches :: "pyval \<Rightarrow> pyval \<Rightarrow> pyval \<Rightarrow> cookie \<Rightarrow> bool" where
  "cookie_matches name dmn path c =
     ((case py_key name of Inl _ \<Rightarrow> False | Inr k \<Rightarrow> py_key (ck_name c) = Inr k)
      \<and> (dmn = PNone \<or> dmn = PStr (ck_domain c))
      \<and> (path = PNone \<or>
           (case py_key path of Inl _ \<Rightarrow> False | Inr k \<Rightarrow> py_key (ck_path c) = Inr k)))"

definition remove_cookie_by_name :: "jar \<Rightarrow> pyval \<Rightarrow> pyval \<Rightarrow> pyval \<Rightarrow> jar" where
  "remove_cookie_by_name J name dmn path =
     map (\<lambda>(d, c2). (d, map (\<lambda>(p, c3).
       (p, filter (\<lambda>(n, c). \<not> cookie_matches name dmn path c) c3)) c2)) J"

text \<open>
  Binding \<open>**cookie\<close> to keyword parameters: every key must be a string.
\<close>

fun str_keys :: "(pykey \<times> pyval) list \<Rightarrow> error + (string \<times> pyval) list" where
  "str_keys [] = Inr []"
| "str_keys ((KStr k, v) # kvs) = ebind (str_keys kvs) (\<lambda>r. Inr ((k, v) # r))"
| "str_keys ((_, v) # kvs) = Inl TypeError"

text \<open>
  \<open>RequestsCookieJar.set(name, value, **kwargs)\<close> called as \<open>set(**cookie)\<close>: the
  dictionary must bind \<open>name\<close> and \<open>value\<close>; a \<open>None\<close> value unsets the cookie.
\<close>

definition jar_set :: "pylib \<Rightarrow> jar \<Rightarrow> (pykey \<times> pyval) list \<Rightarrow> error + jar" where
  "jar_set L J cookie =
     ebind (str_keys cookie) (\<lambda>kws.
       case (map_of kws ''name'', map_of kws ''value'') of
         (Some name, Some val) \<Rightarrow>
           (let kwargs = filter (\<lambda>(k, v). k \<noteq> ''name'' \<and> k \<noteq> ''value'') kws in
            if val = PNone
            then Inr (remove_cookie_by_name J name
                        (dict_get kwargs ''domain'' PNone) (dict_get kwargs ''path'' PNone))
            else ebind (create_cookie L name val kwargs) (set_cookie J))
       | _ \<Rightarrow> Inl TypeError)"

text \<open>
  \<open>requests.cookies.morsel_to_cookie\<close>, used by \<open>set(name, morsel)\<close>.
\<close>

definition morsel_to_cookie :: "pylib \<Rightarrow> morsel \<Rightarrow> error + cookie" where
  "morsel_to_cookie L m =
     ebind (lib_morsel_expires L m) (\<lambda>expires.
       create_cookie L (PStr (m_key m)) (PStr (m_value m))
         [(''comment'', m_comment m),
          (''comment_url'', PBool (py_truthy (m_comment m))),
          (''discard'', PBool False),
          (''domain'', PStr (m_domain m)),
          (''expires'', expires),
          (''path'', PStr (m_path m)),
          (''port'', PNone),
          (''rest'', PDict [(KStr ''HttpOnly'', m_httponly m)]),
          (''rfc2109'', PBool False),
          (''secure'', PBool (py_truthy (m_secure m))),
          (''version'', if py_truthy (m_version m) then m_version m else PInt 0)])"

definition jar_set_morsel :: "pylib \<Rightarrow> jar \<Rightarrow> morsel \<Rightarrow> error + jar" where
  "jar_set_morsel L J m = ebind (morsel_to_cookie L m) (set_cookie J)"

section \<open>Sessions\<close>

text \<open>A \<open>pathlib.Path\<close>: a path built from a string, or \<open>parent / segment\<close>.\<close>

datatype fspath = Path string | Div fspath string

definition SESSIONS_DIR_NAME :: string where
  "SESSIONS_DIR_NAME = ''sessions''"

definition SESSION_IGNORED_HEADER_PREFIXES :: "string list" where
  "SESSION_IGNORED_HEADER_PREFIXES = [''Content-'', ''If-'']"

definition KEPT_COOKIE_OPTIONS :: "string list" where
  "KEPT_COOKIE_OPTIONS = [''name'', ''expires'', ''path'', ''value'', ''domain'', ''secure'']"

definition DEFAULT_COOKIE_PATH :: string where
  "DEFAULT_COOKIE_PATH = ''/''"

definition nl :: string where
  "nl = [CHR 0x0A]"

text \<open>\<open>INSECURE_COOKIE_JAR_WARNING.format(hostname=..., session_id=...)\<close>.\<close>

definition INSECURE_COOKIE_JAR_WARNING :: "string \<Rightarrow> string \<Rightarrow> string" where
  "INSECURE_COOKIE_JAR_WARNING hostname sid =
     ''Outdated layout detected for the current session. Please consider updating it,'' @ nl @
     ''in order to not get affected by potential security problems.'' @ nl @
     nl @
     ''For fixing the current session:'' @ nl @
     nl @
     ''    With binding all cookies to the current host (secure):'' @ nl @
     ''        $ httpie cli sessions upgrade --bind-cookies '' @ hostname @ '' '' @ sid @ nl @
     nl @
     ''    Without binding cookies (leaving them as is) (insecure):'' @ nl @
     ''        $ httpie cli sessions upgrade '' @ hostname @ '' '' @ sid @ nl"

definition INSECURE_COOKIE_JAR_WARNING_FOR_NAMED_SESSIONS :: string where
  "INSECURE_COOKIE_JAR_WARNING_FOR_NAMED_SESSIONS =
     nl @
     ''For fixing all named sessions:'' @ nl @
     nl @
     ''    With binding all cookies to the current host (secure):'' @ nl @
     ''        $ httpie cli sessions upgrade-all --bind-cookies'' @ nl @
     nl @
     ''    Without binding cookies (leaving them as is) (insecure):'' @ nl @
     ''        $ httpie cli sessions upgrade-all'' @ nl @
     nl @
     ''See https://pie.co/docs/security for more information.'' @ nl"

text \<open>
  The session object: the three entries of the underlying dictionary, the attributes set
  by the constructor, and the messages the environment's \<open>log_error\<close> has received
  (message and level, oldest first).
\<close>

record session =
  s_path :: fspath
  s_headers :: "(pykey \<times> pyval) list"
  s_cookies :: pyval
  s_auth :: pyval
  cookie_jar :: jar
  session_id :: string
  bound_host :: string
  refactor_mode :: bool
  env_log :: "(string \<times> string) list"

definition is_anonymous_session :: "pylib \<Rightarrow> string \<Rightarrow> bool" where
  "is_anonymous_session L session_name = (lib_sep L \<in> set session_name)"

text \<open>
  \<open>materialize_cookie\<close>: the kept options in their order; \<open>cookie._rest.get\<close> needs
  \<open>_rest\<close> to be a dictionary.
\<close>

definition materialize_cookie :: "cookie \<Rightarrow> error + (pykey \<times> pyval) list" where
  "materialize_cookie c =
     (let materialized_cookie =
        [(KStr ''name'', ck_name c), (KStr ''expires'', ck_expires c),
         (KStr ''path'', ck_path c), (KStr ''value'', ck_value c),
         (KStr ''domain'', PStr (ck_domain c)), (KStr ''secure'', ck_secure c)]
      in case ck_rest c of
           PDict rest \<Rightarrow>
             if py_truthy (dict_get rest (KStr ''is_explicit_none'') PNone) \<and> ck_domain c = []
             then Inr (dict_set materialized_cookie (KStr ''domain'') PNone)
             else Inr materialized_cookie
         | _ \<Rightarrow> Inl AttributeError)"

text \<open>\<open>Session.__init__\<close>; the log is that of the environment handed in.\<close>

definition Session ::
  "fspath \<Rightarrow> (string \<times> string) list \<Rightarrow> string \<Rightarrow> string \<Rightarrow> bool \<Rightarrow> session" where
  "Session p env bh sid rm =
     \<lparr>s_path = p,
      s_headers = [],
      s_cookies = PList [],
      s_auth = PDict [(KStr ''type'', PNone), (KStr ''username'', PNone),
                      (KStr ''password'', PNone)],
      cookie_jar = [],
      session_id = sid,
      bound_host = bh,
      refactor_mode = rm,
      env_log = env\<rparr>"

text \<open>\<open>s.replace(':', '_')\<close> and \<open>s.split(':')[0]\<close>.\<close>

definition replace_colon :: "string \<Rightarrow> string" where
  "replace_colon s = map (\<lambda>c. if c = CHR '':'' then CHR ''_'' else c) s"

definition split_colon_first :: "string \<Rightarrow> string" where
  "split_colon_first s = takeWhile (\<lambda>c. c \<noteq> CHR '':'') s"

text \<open>
  \<open>get_httpie_session\<close>. \<open>load\<close> is \<open>BaseConfigDict.load\<close>, which is not among the
  sources and is a parameter; \<open>host\<close> is \<open>None\<close> or a string.
\<close>

definition get_httpie_session ::
  "pylib \<Rightarrow> (session \<Rightarrow> error + session) \<Rightarrow> (string \<times> string) list \<Rightarrow> fspath \<Rightarrow> string
     \<Rightarrow> string option \<Rightarrow> string \<Rightarrow> bool \<Rightarrow> error + session" where
  "get_httpie_session L load env config_dir session_name host url rm =
     (let bound_hostname =
            (case host of
               None \<Rightarrow> lib_url_as_host L url
             | Some h \<Rightarrow> if h \<noteq> [] then h else lib_url_as_host L url);
          bound_hostname = (if bound_hostname = [] then ''localhost'' else bound_hostname);
          hostname = replace_colon bound_hostname;
          (p, sid) =
            (if is_anonymous_session L session_name
             then (Path (lib_expanduser L session_name), lib_expanduser L session_name)
             else (Div (Div (Div config_dir SESSIONS_DIR_NAME) hostname)
                     (session_name @ ''.json''),
                   session_name))
      in load (Session p env (split_colon_first bound_hostname) sid rm))"

text \<open>
  \<open>pre_process_data\<close>, the body of its loop: the entry must be a dictionary
  (\<open>cookie.get\<close>); the flag is raised, or a \<open>None\<close> domain rewritten in place, before
  the jar's \<open>set\<close> is called. The result carries the flag, the jar and the entry as it is
  after the step.
\<close>

definition cookie_step ::
  "pylib \<Rightarrow> bool \<Rightarrow> bool \<times> jar \<Rightarrow> pyval \<Rightarrow> error + ((bool \<times> jar) \<times> pyval)" where
  "cookie_step L is_dict st cookie =
     (case cookie of
        PDict kv \<Rightarrow>
          (let domain = dict_get kv (KStr ''domain'') (PStr []);
               warn = (domain = PStr [] \<and> is_dict);
               kv' = (if \<not> warn \<and> domain = PNone
                      then dict_set (dict_set kv (KStr ''domain'') (PStr []))
                             (KStr ''rest'') (PDict [(KStr ''is_explicit_none'', PBool True)])
                      else kv)
           in ebind (jar_set L (snd st) kv') (\<lambda>J. Inr ((fst st \<or> warn, J), PDict kv')))
      | _ \<Rightarrow> Inl AttributeError)"

fun cookie_loop ::
  "pylib \<Rightarrow> bool \<Rightarrow> bool \<times> jar \<Rightarrow> pyval list \<Rightarrow> error + ((bool \<times> jar) \<times> pyval list)" where
  "cookie_loop L is_dict st [] = Inr (st, [])"
| "cookie_loop L is_dict st (c # cs) =
     ebind (cookie_step L is_dict st c) (\<lambda>(st', c').
     ebind (cookie_loop L is_dict st' cs) (\<lambda>(st'', cs'). Inr (st'', c' # cs')))"

text \<open>\<open>{'name': key, **value}\<close> for each item of a mapping-shaped field.\<close>

fun normalize_items :: "(pykey \<times> pyval) list \<Rightarrow> error + pyval list" where
  "normalize_items [] = Inr []"
| "normalize_items ((key, PDict v) # items) =
     ebind (normalize_items items) (\<lambda>r.
       Inr (PDict (dict_update [(KStr ''name'', key_val key)] v) # r))"
| "normalize_items ((key, _) # items) = Inl TypeError"

definition is_dict :: "pyval option \<Rightarrow> bool" where
  "is_dict v = (case v of Some (PDict _) \<Rightarrow> True | _ \<Rightarrow> False)"

text \<open>
  \<open>Session.pre_process_data\<close>, up to the end of its loop: the flag
  \<open>should_issue_warning\<close>, the jar, and the entries as the loop leaves them.
\<close>

definition decode_cookies ::
  "pylib \<Rightarrow> jar \<Rightarrow> (pykey \<times> pyval) list \<Rightarrow> error + ((bool \<times> jar) \<times> pyval list)" where
  "decode_cookies L J data =
     (let cookies = map_of data (KStr ''cookies'') in
      ebind (case cookies of
               Some (PDict items) \<Rightarrow> normalize_items items
             | Some (PList xs) \<Rightarrow> Inr xs
             | _ \<Rightarrow> Inr []) (\<lambda>normalized_cookies.
        cookie_loop L (is_dict cookies) (False, J) normalized_cookies))"

text \<open>
  \<open>Session.pre_process_data\<close>: returns the session (jar and log updated) and \<open>data\<close>,
  whose list-shaped cookie entries have been rewritten in place by the loop.
  \<open>env.log_error\<close> appends the message and its level to the log.
\<close>

definition pre_process_data ::
  "pylib \<Rightarrow> session \<Rightarrow> (pykey \<times> pyval) list \<Rightarrow> error + (session \<times> (pykey \<times> pyval) list)" where
  "pre_process_data L s data =
     ebind (decode_cookies L (cookie_jar s) data) (\<lambda>((should_issue_warning, J), cs').
       let data' = (case map_of data (KStr ''cookies'') of
                      Some (PList xs) \<Rightarrow> dict_set data (KStr ''cookies'') (PList cs')
                    | _ \<Rightarrow> data);
           log' = (if should_issue_warning \<and> \<not> refactor_mode s
                   then env_log s @
                     [(INSECURE_COOKIE_JAR_WARNING (bound_host s) (session_id s) @
                         (if \<not> is_anonymous_session L (session_id s)
                          then INSECURE_COOKIE_JAR_WARNING_FOR_NAMED_SESSIONS else []),
                       ''warning'')]
                   else env_log s)
       in Inr (s\<lparr>cookie_jar := J, env_log := log'\<rparr>, data'))"

text \<open>The dictionary comprehension \<open>{cookie.pop('name'): cookie for cookie in ...}\<close>.\<close>

fun cookies_by_name ::
  "(pykey \<times> pyval) list \<Rightarrow> (pykey \<times> pyval) list list \<Rightarrow> error + (pykey \<times> pyval) list" where
  "cookies_by_name d [] = Inr d"
| "cookies_by_name d (c # cs) =
     (case map_of c (KStr ''name'') of
        None \<Rightarrow> Inl KeyError
      | Some name \<Rightarrow>
          ebind (py_key name) (\<lambda>k.
            cookies_by_name
              (dict_set d k (PDict (filter (\<lambda>(k', v). k' \<noteq> KStr ''name'') c))) cs))"

fun materialize_all :: "cookie list \<Rightarrow> error + (pykey \<times> pyval) list list" where
  "materialize_all [] = Inr []"
| "materialize_all (c # cs) =
     ebind (materialize_cookie c) (\<lambda>m. ebind (materialize_all cs) (\<lambda>ms. Inr (m # ms)))"

text \<open>\<open>Session.post_process_data\<close>.\<close>

definition post_process_data ::
  "session \<Rightarrow> (pykey \<times> pyval) list \<Rightarrow> error + (pykey \<times> pyval) list" where
  "post_process_data s data =
     (let cookies = map_of data (KStr ''cookies'') in
      ebind (materialize_all (jar_iter (cookie_jar s))) (\<lambda>normalized_cookies.
        if is_dict cookies
        then ebind (cookies_by_name [] normalized_cookies) (\<lambda>d.
               Inr (dict_set data (KStr ''cookies'') (PDict d)))
        else Inr (dict_set data (KStr ''cookies'')
                    (PList (map PDict normalized_cookies)))))"

section \<open>Headers\<close>

text \<open>
  \<open>HTTPHeadersDict\<close> (\<open>httpie.cli.dicts\<close>, a case-insensitive multi-dictionary) is not
  among the sources. Modelled from the spec: a header map has case-insensitive identity and
  case-preserving storage, and an incoming map may hold several instances of a name. It is
  a list of name/value pairs in insertion order; two names are the same header when their
  lower-cased forms agree. An incoming value is \<open>None\<close>, a string or bytes.
\<close>

datatype hvalue = HStr string | HBytes string

text \<open>\<open>getall(name)\<close>: a new list of the values stored under the name.\<close>

definition getall :: "(string \<times> 'v) list \<Rightarrow> string \<Rightarrow> error + 'v list" where
  "getall hs name =
     (let vs = map snd (filter (\<lambda>(k, v). lower k = lower name) hs)
      in if vs = [] then Inl KeyError else Inr vs)"

text \<open>\<open>popall(name)\<close>: every instance of the name is removed.\<close>

definition popall :: "(string \<times> 'v) list \<Rightarrow> string \<Rightarrow> error + (string \<times> 'v) list" where
  "popall hs name =
     (if list_ex (\<lambda>(k, v). lower k = lower name) hs
      then Inr (filter (\<lambda>(k, v). lower k \<noteq> lower name) hs) else Inl KeyError)"

text \<open>
  \<open>headers[name] = value\<close>: the first instance is replaced (taking the new spelling of
  the name), the others are removed; a new name is appended.
\<close>

fun setitem :: "(string \<times> 'v) list \<Rightarrow> string \<Rightarrow> 'v \<Rightarrow> (string \<times> 'v) list" where
  "setitem [] name v = [(name, v)]"
| "setitem ((k, v') # hs) name v =
     (if lower k = lower name
      then (name, v) # filter (\<lambda>(k', _). lower k' \<noteq> lower name) hs
      else (k, v') # setitem hs name v)"

text \<open>\<open>HTTPHeadersDict(d)\<close> for a dictionary \<open>d\<close> with string keys.\<close>

definition headers_of_dict :: "(pykey \<times> pyval) list \<Rightarrow> error + (string \<times> pyval) list" where
  "headers_of_dict d = str_keys d"

text \<open>
  \<open>dict(headers)\<close>: each name of the multi-dictionary, in order, is bound to the first
  value stored under it.
\<close>

definition getone :: "(string \<times> 'v) list \<Rightarrow> string \<Rightarrow> 'v option" where
  "getone hs name = map_option snd (find (\<lambda>(k, v). lower k = lower name) hs)"

definition dict_of_headers :: "(string \<times> pyval) list \<Rightarrow> (pykey \<times> pyval) list" where
  "dict_of_headers hs =
     foldl (\<lambda>d (k, _). case getone hs k of None \<Rightarrow> d | Some v \<Rightarrow> dict_set d (KStr k) v) [] hs"

text \<open>The loop over the morsels of one \<open>Cookie\<close> header.\<close>

fun set_morsels :: "pylib \<Rightarrow> jar \<Rightarrow> morsel list \<Rightarrow> error + jar" where
  "set_morsels L J [] = Inr J"
| "set_morsels L J (m # ms) =
     ebind (jar_set_morsel L J
              (if m_path m = [] then m\<lparr>m_path := DEFAULT_COOKIE_PATH\<rparr> else m))
       (\<lambda>J'. set_morsels L J' ms)"

definition ignored_prefix :: "string \<Rightarrow> bool" where
  "ignored_prefix name =
     list_ex (\<lambda>prefix. startswith (lower name) (lower prefix)) SESSION_IGNORED_HEADER_PREFIXES"

text \<open>
  One pass of the loop of \<open>update_headers\<close>. The state is the local \<open>headers\<close>, the
  jar and the incoming \<open>request_headers\<close>. In the branch for several \<open>Cookie\<close>
  instances, \<open>remove\<close> acts on the list \<open>getall\<close> returned: it fails when the value is
  not in that list and otherwise changes nothing of the state.
\<close>

definition header_step ::
  "pylib \<Rightarrow> (string \<times> pyval) list \<times> jar \<times> (string \<times> hvalue option) list
     \<Rightarrow> string \<times> hvalue option
     \<Rightarrow> error + ((string \<times> pyval) list \<times> jar \<times> (string \<times> hvalue option) list)" where
  "header_step L st item =
     (case st of (headers, J, request_headers) \<Rightarrow>
      case item of (name, val) \<Rightarrow>
      case val of
        None \<Rightarrow> Inr st
      | Some original_value \<Rightarrow>
          ebind (case original_value of HStr v \<Rightarrow> Inr v | HBytes b \<Rightarrow> lib_decode L b) (\<lambda>v.
            if lower name = ''user-agent'' \<and> startswith v ''HTTPie/'' then Inr st
            else if lower name = ''cookie'' then
              ebind (lib_simple_cookie L v) (\<lambda>ms.
              ebind (set_morsels L J ms) (\<lambda>J'.
              ebind (getall request_headers name) (\<lambda>all_cookie_headers.
                if length all_cookie_headers > 1
                then (if Some original_value \<in> set all_cookie_headers
                      then Inr (headers, J', request_headers) else Inl ValueError)
                else ebind (popall request_headers name) (\<lambda>r. Inr (headers, J', r)))))
            else if ignored_prefix name then Inr st
            else Inr (setitem headers name (PStr v), J, request_headers)))"

fun header_loop ::
  "pylib \<Rightarrow> (string \<times> pyval) list \<times> jar \<times> (string \<times> hvalue option) list
     \<Rightarrow> (string \<times> hvalue option) list
     \<Rightarrow> error + ((string \<times> pyval) list \<times> jar \<times> (string \<times> hvalue option) list)" where
  "header_loop L st [] = Inr st"
| "header_loop L st (item # items) =
     ebind (header_step L st item) (\<lambda>st'. header_loop L st' items)"

text \<open>
  \<open>Session.update_headers\<close>: returns the session and the incoming map as the call
  leaves them.
\<close>

definition update_headers ::
  "pylib \<Rightarrow> session \<Rightarrow> (string \<times> hvalue option) list
     \<Rightarrow> error + (session \<times> (string \<times> hvalue option) list)" where
  "update_headers L s request_headers =
     ebind (headers_of_dict (s_headers s)) (\<lambda>headers.
     ebind (header_loop L (headers, cookie_jar s, request_headers) request_headers)
       (\<lambda>(headers', J, request_headers').
          Inr (s\<lparr>s_headers := dict_of_headers headers', cookie_jar := J\<rparr>, request_headers')))"

section \<open>Authentication descriptor\<close>

text \<open>
  The setter of \<open>Session.auth\<close>: the assertion on the key set, then the assignment.
  The result is the session after the call and the exception raised, if any.
\<close>

definition set_auth :: "session \<Rightarrow> (pykey \<times> pyval) list \<Rightarrow> session \<times> error option" where
  "set_auth s auth =
     (if {KStr ''type'', KStr ''raw_auth''} = set (map fst auth)
      then (s\<lparr>s_auth := PDict auth\<rparr>, None)
      else (s, Some AssertionError))"

section \<open>Notions used by the properties\<close>

text \<open>A cookie entry after the rewriting of an explicit \<open>None\<close> domain.\<close>

definition explicit_none :: "(pykey \<times> pyval) list \<Rightarrow> (pykey \<times> pyval) list" where
  "explicit_none kv =
     dict_set (dict_set kv (KStr ''domain'') (PStr []))
       (KStr ''rest'') (PDict [(KStr ''is_explicit_none'', PBool True)])"

text \<open>An entry whose domain is absent or the empty string.\<close>

definition unbound_entry :: "pyval \<Rightarrow> bool" where
  "unbound_entry c =
     (case c of PDict kv \<Rightarrow> dict_get kv (KStr ''domain'') (PStr []) = PStr [] | _ \<Rightarrow> False)"

text \<open>What the loop of \<open>pre_process_data\<close> makes of an entry before storing it.\<close>

definition rewritten :: "pyval \<Rightarrow> pyval" where
  "rewritten c =
     (case c of
        PDict kv \<Rightarrow>
          if dict_get kv (KStr ''domain'') (PStr []) = PNone then PDict (explicit_none kv)
          else PDict kv
      | _ \<Rightarrow> c)"

text \<open>
  An incoming header value that, once decoded, is the tool's own agent string
  (\<open>HTTPie/<version>\<close>).
\<close>

definition default_agent :: "pylib \<Rightarrow> hvalue option \<Rightarrow> bool" where
  "default_agent L val =
     (case val of
        None \<Rightarrow> False
      | Some (HStr v) \<Rightarrow> startswith v ''HTTPie/''
      | Some (HBytes b) \<Rightarrow>
          (case lib_decode L b of Inl _ \<Rightarrow> False | Inr v \<Rightarrow> startswith v ''HTTPie/''))"

text \<open>An incoming header that no pass of the loop of \<open>update_headers\<close> stores.\<close>

definition never_stored :: "pylib \<Rightarrow> string \<Rightarrow> hvalue option \<Rightarrow> bool" where
  "never_stored L name val =
     (val = None \<or> ignored_prefix name \<or> lower name = ''cookie''
      \<or> (lower name = ''user-agent'' \<and> default_agent L val))"

text \<open>
  Notions for the round trip through the list shape. A value is stable when the jar's
  \<open>set_cookie\<close> stores it as it is. A cookie is regular when its value is not \<open>None\<close>
  and stable, its domain is in lower case, its expiry is \<open>None\<close> or an integer of
  magnitude up to \<open>2 ^ 53\<close>, and its \<open>_rest\<close> is a dictionary. A jar is regular when its
  keys are distinct at each level and every cookie is regular and stored under its own
  domain, path and name.
\<close>

definition stable_value :: "pyval \<Rightarrow> bool" where
  "stable_value v =
     (case v of
        PStr x \<Rightarrow>
          \<not> (startswith x [CHR 0x22] \<and> endswith x [CHR 0x22]) \<or> strip_escaped_quotes x = x
      | _ \<Rightarrow> True)"

definition cookie_ok :: "cookie \<Rightarrow> bool" where
  "cookie_ok c =
     (ck_value c \<noteq> PNone \<and> stable_value (ck_value c) \<and> lower (ck_domain c) = ck_domain c
      \<and> (case ck_expires c of PNone \<Rightarrow> True | PInt n \<Rightarrow> \<bar>n\<bar> \<le> 2 ^ 53 | _ \<Rightarrow> False)
      \<and> (case ck_rest c of PDict r \<Rightarrow> True | _ \<Rightarrow> False))"

definition jar_ok :: "jar \<Rightarrow> bool" where
  "jar_ok J =
     (distinct (map fst J) \<and>
      list_all (\<lambda>(d, c2). distinct (map fst c2) \<and>
        list_all (\<lambda>(p, c3). distinct (map fst c3) \<and>
          list_all (\<lambda>(n, c). ck_domain c = d \<and> py_key (ck_path c) = Inr p
                      \<and> py_key (ck_name c) = Inr n \<and> cookie_ok c) c3) c2) J)"

text \<open>A cookie carrying the explicit-none marker.\<close>

definition explicit_none_marked :: "cookie \<Rightarrow> bool" where
  "explicit_none_marked c =
     (case ck_rest c of
        PDict r \<Rightarrow> py_truthy (dict_get r (KStr ''is_explicit_none'') PNone) \<and> ck_domain c = []
      | _ \<Rightarrow> False)"

text \<open>
  The cookie that decoding the materialized form of a regular cookie creates: the kept
  options are those of the original, \<open>_rest\<close> is the marker or the constructor's default.
\<close>

definition recreate :: "cookie \<Rightarrow> cookie" where
  "recreate c =
     c\<lparr>ck_rest := (if explicit_none_marked c
                    then PDict [(KStr ''is_explicit_none'', PBool True)]
                    else PDict [(KStr ''HttpOnly'', PNone)])\<rparr>"

text \<open>Storing a cookie whose path and name are hashable.\<close>

definition put_cookie :: "jar \<Rightarrow> cookie \<Rightarrow> jar" where
  "put_cookie J c =
     (case (py_key (ck_path c), py_key (ck_name c)) of
        (Inr p, Inr n) \<Rightarrow> jar_put J (ck_domain c) p n c
      | _ \<Rightarrow> J)"

text \<open>A dictionary entry that is left out when its value is empty.\<close>

definition nonempty_entry :: "'k \<Rightarrow> 'v list \<Rightarrow> ('k \<times> 'v list) list" where
  "nonempty_entry k xs = (if xs = [] then [] else [(k, xs)])"

text \<open>The jar without its empty inner dictionaries, every cookie recreated.\<close>

definition jar_norm :: "jar \<Rightarrow> jar" where
  "jar_norm J =
     concat (map (\<lambda>(d, c2). nonempty_entry d
       (concat (map (\<lambda>(p, c3). nonempty_entry p (map (\<lambda>(n, c). (n, recreate c)) c3)) c2))) J)"

section \<open>A sample library\<close>

text \<open>
  An instance of the library parameters for concrete evaluations: a POSIX separator, no
  home expansion, no conversion of anything but integers, and a cookie parser that knows
  the header values \<open>a=1; b=2\<close>, \<open>a=1\<close> and \<open>b=2\<close>.
\<close>

definition plain_morsel :: "string \<Rightarrow> string \<Rightarrow> morsel" where
  "plain_morsel k v =
     \<lparr>m_key = k, m_value = v, m_path = [], m_domain = [], m_secure = PStr [],
      m_httponly = PStr [], m_version = PStr [], m_comment = PStr []\<rparr>"

definition sample_lib :: pylib where
  "sample_lib =
     \<lparr>lib_int = (\<lambda>v. case v of PInt n \<Rightarrow> Inr n | _ \<Rightarrow> Inl TypeError),
      lib_int_float = (\<lambda>v. case v of PInt n \<Rightarrow> Inr n | _ \<Rightarrow> Inl TypeError),
      lib_decode = Inr,
      lib_simple_cookie =
        (\<lambda>v. if v = ''a=1; b=2'' then Inr [plain_morsel ''a'' ''1'', plain_morsel ''b'' ''2'']
             else if v = ''a=1'' then Inr [plain_morsel ''a'' ''1'']
             else if v = ''b=2'' then Inr [plain_morsel ''b'' ''2'']
             else Inr []),
      lib_morsel_expires = (\<lambda>m. Inr PNone),
      lib_sep = CHR ''/'',
      lib_expanduser = (\<lambda>p. p),
      lib_url_as_host = (\<lambda>u. [])\<rparr>"

definition sample_session :: session where
  "sample_session = Session (Path ''/tmp/x.json'') [] ''example.org'' ''work'' False"

section \<open>Properties\<close>

subsection \<open>Auxiliary facts\<close>

lemma ebind_Inr_iff: "ebind m f = Inr y \<longleftrightarrow> (\<exists>x. m = Inr x \<and> f x = Inr y)"
  by (cases m) (simp_all add: ebind_def)

lemma ebind_Inr [simp]: "ebind (Inr x) f = f x"
  by (simp add: ebind_def)

lemma ebind_Inl [simp]: "ebind (Inl e) f = Inl e"
  by (simp add: ebind_def)

lemma map_of_dict_set: "map_of (dict_set d k v) = (map_of d)(k \<mapsto> v)"
  by (induction d k v rule: dict_set.induct) auto

lemma map_of_dict_update: "map_of (dict_update d kv) = map_of d ++ map_of (rev kv)"
proof (induction d kv rule: dict_update.induct)
  case (1 d)
  then show ?case by simp
next
  case (2 d k v kvs)
  have "map_of d ++ map_of (rev ((k, v) # kvs)) = (map_of d)(k \<mapsto> v) ++ map_of (rev kvs)"
    by (rule ext) (simp add: map_add_def split: option.splits)
  moreover have "map_of (dict_update d ((k, v) # kvs))
      = (map_of d)(k \<mapsto> v) ++ map_of (rev kvs)"
    using "2.IH" by (simp only: dict_update.simps map_of_dict_set)
  ultimately show ?case by simp
qed

lemma map_of_rev_distinct:
  assumes "distinct (map fst kv)"
  shows "map_of (rev kv) = map_of kv"
proof (rule ext)
  fix x
  have d: "distinct (map fst (rev kv))"
    using assms by (simp add: rev_map [symmetric])
  show "map_of (rev kv) x = map_of kv x"
  proof (cases "map_of kv x")
    case None
    then have "map_of (rev kv) x = None" by (simp add: map_of_eq_None_iff)
    with None show ?thesis by simp
  next
    case (Some y)
    then have "(x, y) \<in> set (rev kv)" by (auto dest: map_of_SomeD)
    with d have "map_of (rev kv) x = Some y" by simp
    with Some show ?thesis by simp
  qed
qed

lemma dict_get_normalized:
  assumes "distinct (map fst kv)" "k \<noteq> KStr ''name''"
  shows "dict_get (dict_update [(KStr ''name'', n)] kv) k dflt = dict_get kv k dflt"
  using assms
  by (simp add: dict_get_def map_of_dict_update map_of_rev_distinct map_add_def
      split: option.splits)

lemma cookie_step_Inr:
  assumes "cookie_step L d (f, J) c = Inr ((f', J'), c')"
  shows "(\<exists>kv. c = PDict kv) \<and> f' = (f \<or> (d \<and> unbound_entry c)) \<and> c' = rewritten c"
  using assms
  by (auto simp: cookie_step_def unbound_entry_def rewritten_def explicit_none_def Let_def
      ebind_Inr_iff
      split: pyval.splits if_splits)

lemma cookie_loop_Inr:
  assumes "cookie_loop L d (f, J) xs = Inr ((f', J'), cs)"
  shows "f' = (f \<or> (d \<and> list_ex unbound_entry xs)) \<and> cs = map rewritten xs
         \<and> list_all (\<lambda>c. \<exists>kv. c = PDict kv) xs"
  using assms
proof (induction xs arbitrary: f J cs)
  case Nil
  then show ?case by simp
next
  case (Cons x xs)
  from Cons.prems obtain f1 J1 c1 cs1 where
    step: "cookie_step L d (f, J) x = Inr ((f1, J1), c1)" and
    rest: "cookie_loop L d (f1, J1) xs = Inr ((f', J'), cs1)" and
    cs: "cs = c1 # cs1"
    by (auto simp: ebind_Inr_iff)
  from cookie_step_Inr [OF step] Cons.IH [OF rest] cs show ?case
    by auto
qed

lemma normalize_items_Inr:
  assumes "normalize_items items = Inr ns"
  shows "list_all2 (\<lambda>(key, v) n. \<exists>kv. v = PDict kv \<and>
           n = PDict (dict_update [(KStr ''name'', key_val key)] kv)) items ns"
  using assms
proof (induction items arbitrary: ns rule: normalize_items.induct)
  case 1
  then show ?case by simp
next
  case (2 key v items)
  then show ?case by (auto simp: ebind_Inr_iff)
qed simp_all

subsection \<open>Decoding the cookie field\<close>

text \<open>
  Claim C1. When the decoding of the cookie field completes: if the field is mapping-shaped
  and one of its entries has no domain or the empty string as its domain, the flag
  \<open>should_issue_warning\<close> is set; if the field is list-shaped, the flag is not set, and
  every entry with an explicit \<open>None\<close> domain reaches the jar rewritten to the
  explicit-none marker (domain \<open>""\<close>, \<open>rest = {is_explicit_none: True}\<close>).
\<close>

theorem decode_flags_legacy_entries:
  assumes "decode_cookies L J data = Inr ((flag, J'), cs)"
  shows "(\<forall>items key kv.
            map_of data (KStr ''cookies'') = Some (PDict items) \<and> (key, PDict kv) \<in> set items
            \<and> distinct (map fst kv)
            \<and> (map_of kv (KStr ''domain'') = None \<or> map_of kv (KStr ''domain'') = Some (PStr []))
            \<longrightarrow> flag)
       \<and> (\<forall>xs. map_of data (KStr ''cookies'') = Some (PList xs) \<longrightarrow>
            \<not> flag \<and> length cs = length xs
            \<and> (\<forall>i kv. i < length xs \<and> xs ! i = PDict kv
                  \<and> map_of kv (KStr ''domain'') = Some PNone
                  \<longrightarrow> cs ! i = PDict (explicit_none kv)))"
proof (intro conjI allI impI)
  fix items key kv
  assume h: "map_of data (KStr ''cookies'') = Some (PDict items) \<and> (key, PDict kv) \<in> set items
    \<and> distinct (map fst kv)
    \<and> (map_of kv (KStr ''domain'') = None \<or> map_of kv (KStr ''domain'') = Some (PStr []))"
  from assms h obtain ns where ns: "normalize_items items = Inr ns"
    and loop: "cookie_loop L True (False, J) ns = Inr ((flag, J'), cs)"
    by (auto simp: decode_cookies_def is_dict_def ebind_Inr_iff)
  from h obtain i where i: "i < length items" "items ! i = (key, PDict kv)"
    by (auto simp: in_set_conv_nth)
  note la = normalize_items_Inr [OF ns]
  from list_all2_nthD [OF la i(1)] i(2)
  have ni: "ns ! i = PDict (dict_update [(KStr ''name'', key_val key)] kv)"
    by simp
  from list_all2_lengthD [OF la] i(1) have "ns ! i \<in> set ns"
    by simp
  with ni obtain n where n: "n \<in> set ns"
    "n = PDict (dict_update [(KStr ''name'', key_val key)] kv)"
    by simp
  from h have "dict_get kv (KStr ''domain'') (PStr []) = PStr []"
    by (auto simp: dict_get_def)
  with h n have "unbound_entry n"
    by (simp add: unbound_entry_def dict_get_normalized)
  with n have "list_ex unbound_entry ns"
    by (auto simp: list_ex_iff)
  with cookie_loop_Inr [OF loop] show flag by simp
next
  fix xs
  assume h: "map_of data (KStr ''cookies'') = Some (PList xs)"
  with assms have loop: "cookie_loop L False (False, J) xs = Inr ((flag, J'), cs)"
    by (simp add: decode_cookies_def is_dict_def)
  note r = cookie_loop_Inr [OF loop]
  from r show "\<not> flag" by simp
  from r show "length cs = length xs" by simp
  fix i kv
  assume "i < length xs \<and> xs ! i = PDict kv \<and> map_of kv (KStr ''domain'') = Some PNone"
  with r show "cs ! i = PDict (explicit_none kv)"
    by (simp add: rewritten_def dict_get_def)
qed


lemma normalized_unbound:
  assumes "list_all2 (\<lambda>(key, v) n. \<exists>kv. v = PDict kv \<and>
           n = PDict (dict_update [(KStr ''name'', key_val key)] kv)) items ns"
    and "\<forall>key kv. (key, PDict kv) \<in> set items \<longrightarrow> distinct (map fst kv)"
  shows "list_ex unbound_entry ns \<longleftrightarrow>
         (\<exists>key kv. (key, PDict kv) \<in> set items
            \<and> (map_of kv (KStr ''domain'') = None
                \<or> map_of kv (KStr ''domain'') = Some (PStr [])))"
  using assms
proof (induction rule: list_all2_induct)
  case Nil
  then show ?case by simp
next
  case (Cons x xs y ys)
  obtain key v where x: "x = (key, v)" by (cases x)
  with Cons.hyps obtain kv where kv: "v = PDict kv"
    "y = PDict (dict_update [(KStr ''name'', key_val key)] kv)"
    by auto
  from Cons.prems x kv have dk: "distinct (map fst kv)" by auto
  have u: "unbound_entry y \<longleftrightarrow>
      (map_of kv (KStr ''domain'') = None \<or> map_of kv (KStr ''domain'') = Some (PStr []))"
  proof -
    have "dict_get (dict_update [(KStr ''name'', key_val key)] kv) (KStr ''domain'') (PStr [])
        = dict_get kv (KStr ''domain'') (PStr [])"
      using dk by (simp add: dict_get_normalized)
    then have "unbound_entry y \<longleftrightarrow> dict_get kv (KStr ''domain'') (PStr []) = PStr []"
      using kv by (simp add: unbound_entry_def)
    then show ?thesis
      by (auto simp: dict_get_def split: option.splits)
  qed
  from Cons.prems have "\<forall>key kv. (key, PDict kv) \<in> set xs \<longrightarrow> distinct (map fst kv)"
    by auto
  from Cons.IH [OF this] u x kv show ?case
    by auto
qed

text \<open>
  Claim C10. When the decoding completes, the flag is set exactly when the field is
  mapping-shaped and some entry has an absent or empty-string domain. An entry of a
  mapping-shaped field whose domain is an explicit \<open>None\<close> does not count: it is
  rewritten to the explicit-none marker like an entry of a list.
\<close>

theorem null_domain_is_explicit_none:
  assumes "decode_cookies L J data = Inr ((flag, J'), cs)"
    and "\<forall>items key kv. map_of data (KStr ''cookies'') = Some (PDict items)
           \<and> (key, PDict kv) \<in> set items \<longrightarrow> distinct (map fst kv)"
  shows "(flag \<longleftrightarrow>
           (\<exists>items key kv. map_of data (KStr ''cookies'') = Some (PDict items)
              \<and> (key, PDict kv) \<in> set items
              \<and> (map_of kv (KStr ''domain'') = None
                  \<or> map_of kv (KStr ''domain'') = Some (PStr []))))
       \<and> (\<forall>items i key kv. map_of data (KStr ''cookies'') = Some (PDict items)
              \<and> i < length items \<and> items ! i = (key, PDict kv)
              \<and> map_of kv (KStr ''domain'') = Some PNone
              \<longrightarrow> i < length cs
                  \<and> cs ! i = PDict (explicit_none
                       (dict_update [(KStr ''name'', key_val key)] kv)))"
proof (cases "\<exists>items. map_of data (KStr ''cookies'') = Some (PDict items)")
  case False
  then have nd: "\<not> is_dict (map_of data (KStr ''cookies''))"
    by (auto simp: is_dict_def split: option.splits pyval.splits)
  from assms(1) obtain ns where
    "cookie_loop L (is_dict (map_of data (KStr ''cookies''))) (False, J) ns
       = Inr ((flag, J'), cs)"
    by (auto simp: decode_cookies_def Let_def ebind_Inr_iff)
  from cookie_loop_Inr [OF this] nd have "\<not> flag" by simp
  with False show ?thesis by auto
next
  case True
  then obtain items where items: "map_of data (KStr ''cookies'') = Some (PDict items)"
    by blast
  from assms(1) items obtain ns where ns: "normalize_items items = Inr ns"
    and loop: "cookie_loop L True (False, J) ns = Inr ((flag, J'), cs)"
    by (auto simp: decode_cookies_def is_dict_def ebind_Inr_iff)
  note la = normalize_items_Inr [OF ns]
  note r = cookie_loop_Inr [OF loop]
  from assms(2) items
  have wf: "\<forall>key kv. (key, PDict kv) \<in> set items \<longrightarrow> distinct (map fst kv)"
    by blast
  have flag: "flag \<longleftrightarrow> (\<exists>key kv. (key, PDict kv) \<in> set items
      \<and> (map_of kv (KStr ''domain'') = None \<or> map_of kv (KStr ''domain'') = Some (PStr [])))"
    using r normalized_unbound [OF la wf] by simp
  have rew: "i < length cs \<and> cs ! i = PDict (explicit_none
        (dict_update [(KStr ''name'', key_val key)] kv))"
    if h: "i < length items" "items ! i = (key, PDict kv)"
      "map_of kv (KStr ''domain'') = Some PNone" for i key kv
  proof -
    from list_all2_nthD [OF la h(1)] h(2)
    have ni: "ns ! i = PDict (dict_update [(KStr ''name'', key_val key)] kv)"
      by simp
    from h have "(key, PDict kv) \<in> set items"
      by (auto simp: in_set_conv_nth)
    with wf have dk: "distinct (map fst kv)" by blast
    from h(3) have "dict_get kv (KStr ''domain'') (PStr []) = PNone"
      by (simp add: dict_get_def)
    with dk have "dict_get (dict_update [(KStr ''name'', key_val key)] kv)
        (KStr ''domain'') (PStr []) = PNone"
      by (simp add: dict_get_normalized)
    with ni have "rewritten (ns ! i) = PDict (explicit_none
        (dict_update [(KStr ''name'', key_val key)] kv))"
      by (simp add: rewritten_def)
    moreover from list_all2_lengthD [OF la] h(1) have "i < length ns" by simp
    ultimately show ?thesis using r by simp
  qed
  from flag rew items show ?thesis
    by auto
qed

lemma sublist_warning_hostname:
  "sublist hostname (INSECURE_COOKIE_JAR_WARNING hostname sid)"
  unfolding INSECURE_COOKIE_JAR_WARNING_def sublist_def
  by (metis append.assoc)


theorem decode_flags_legacy_entries_witness:
  "map_sum id (\<lambda>r. fst (fst r)) (decode_cookies sample_lib []
       [(KStr ''cookies'', PDict [(KStr ''a'', PDict [(KStr ''value'', PStr ''1'')])])])
     = Inr True
   \<and> map_sum id (\<lambda>r. (fst (fst r), snd r)) (decode_cookies sample_lib []
       [(KStr ''cookies'', PList [PDict [(KStr ''name'', PStr ''a''),
          (KStr ''value'', PStr ''1''), (KStr ''domain'', PNone)]])])
     = Inr (False, [PDict (explicit_none [(KStr ''name'', PStr ''a''),
          (KStr ''value'', PStr ''1''), (KStr ''domain'', PNone)])])"
proof -
  let ?kv = "[(KStr ''name'', PStr ''a''), (KStr ''value'', PStr ''1''), (KStr ''domain'', PNone)]"
  let ?J1 = "[([], [(KStr ''/'', [(KStr ''a'',
        \<lparr>ck_name = PStr ''a'', ck_value = PStr ''1'', ck_domain = [], ck_path = PStr ''/'',
         ck_expires = PNone, ck_secure = PBool False,
         ck_rest = PDict [(KStr ''HttpOnly'', PNone)]\<rparr>)])])]"
  let ?J2 = "[([], [(KStr ''/'', [(KStr ''a'',
        \<lparr>ck_name = PStr ''a'', ck_value = PStr ''1'', ck_domain = [], ck_path = PStr ''/'',
         ck_expires = PNone, ck_secure = PBool False,
         ck_rest = PDict [(KStr ''is_explicit_none'', PBool True)]\<rparr>)])])]"
  let ?c2 = "PDict [(KStr ''name'', PStr ''a''), (KStr ''value'', PStr ''1''),
         (KStr ''domain'', PStr []),
         (KStr ''rest'', PDict [(KStr ''is_explicit_none'', PBool True)])]"
  have a: "decode_cookies sample_lib []
       [(KStr ''cookies'', PDict [(KStr ''a'', PDict [(KStr ''value'', PStr ''1'')])])]
     = Inr ((True, ?J1), [PDict [(KStr ''name'', PStr ''a''), (KStr ''value'', PStr ''1'')]])"
    by code_simp
  have b: "decode_cookies sample_lib [] [(KStr ''cookies'', PList [PDict ?kv])]
     = Inr ((False, ?J2), [?c2])"
    by code_simp
  from decode_flags_legacy_entries [OF a] have True by simp
  from decode_flags_legacy_entries [OF b]
  have "[?c2] ! 0 = PDict (explicit_none ?kv)"
    by simp
  with a b show ?thesis by simp
qed

theorem null_domain_is_explicit_none_witness:
  "map_sum id (\<lambda>r. (fst (fst r), snd r)) (decode_cookies sample_lib []
       [(KStr ''cookies'', PDict [(KStr ''a'', PDict [(KStr ''value'', PStr ''1''),
          (KStr ''domain'', PNone)])])])
     = Inr (False, [PDict (explicit_none [(KStr ''name'', PStr ''a''),
          (KStr ''value'', PStr ''1''), (KStr ''domain'', PNone)])])"
proof -
  let ?kv = "[(KStr ''value'', PStr ''1''), (KStr ''domain'', PNone)]"
  let ?D = "[(KStr ''cookies'', PDict [(KStr ''a'', PDict ?kv)])]"
  let ?J2 = "[([], [(KStr ''/'', [(KStr ''a'',
        \<lparr>ck_name = PStr ''a'', ck_value = PStr ''1'', ck_domain = [], ck_path = PStr ''/'',
         ck_expires = PNone, ck_secure = PBool False,
         ck_rest = PDict [(KStr ''is_explicit_none'', PBool True)]\<rparr>)])])]"
  let ?c2 = "PDict [(KStr ''name'', PStr ''a''), (KStr ''value'', PStr ''1''),
         (KStr ''domain'', PStr []),
         (KStr ''rest'', PDict [(KStr ''is_explicit_none'', PBool True)])]"
  have a: "decode_cookies sample_lib [] ?D = Inr ((False, ?J2), [?c2])"
    by code_simp
  have wf: "\<forall>items key kv. map_of ?D (KStr ''cookies'') = Some (PDict items)
           \<and> (key, PDict kv) \<in> set items \<longrightarrow> distinct (map fst kv)"
    by simp
  from null_domain_is_explicit_none [OF a wf]
  have "[?c2] ! 0 = PDict (explicit_none (dict_update [(KStr ''name'', key_val (KStr ''a''))] ?kv))"
    by simp
  with a show ?thesis by simp
qed

subsection \<open>The authentication descriptor\<close>

text \<open>
  Claim C8. Setting the auth descriptor succeeds exactly when the dictionary's key set is
  \<open>{type, raw_auth}\<close>; then the descriptor is stored. For any other key set the setter
  fails (the failed assertion is the error the specification calls
  \<open>InvalidAuthDescriptor\<close>) and the session, the stored descriptor included, is as before.
\<close>

theorem set_auth_exact_keys:
  "(snd (set_auth s auth) = None \<longleftrightarrow> set (map fst auth) = {KStr ''type'', KStr ''raw_auth''})
   \<and> (snd (set_auth s auth) = None \<longrightarrow> s_auth (fst (set_auth s auth)) = PDict auth)
   \<and> (snd (set_auth s auth) \<noteq> None \<longrightarrow>
        snd (set_auth s auth) = Some AssertionError \<and> fst (set_auth s auth) = s)"
  by (auto simp: set_auth_def)

theorem set_auth_exact_keys_witness:
  "set_auth sample_session [(KStr ''type'', PStr ''basic'')]
     = (sample_session, Some AssertionError)
   \<and> snd (set_auth sample_session
         [(KStr ''type'', PStr ''basic''), (KStr ''raw_auth'', PStr ''user:pass'')]) = None
   \<and> s_auth (fst (set_auth sample_session
         [(KStr ''type'', PStr ''basic''), (KStr ''raw_auth'', PStr ''user:pass'')]))
       = PDict [(KStr ''type'', PStr ''basic''), (KStr ''raw_auth'', PStr ''user:pass'')]"
  using set_auth_exact_keys [of sample_session "[(KStr ''type'', PStr ''basic'')]"]
    set_auth_exact_keys [of sample_session
      "[(KStr ''type'', PStr ''basic''), (KStr ''raw_auth'', PStr ''user:pass'')]"]
  by (simp add: set_auth_def)

subsection \<open>The security warning\<close>

lemma sublist_warning_session_id:
  "sublist sid (INSECURE_COOKIE_JAR_WARNING hostname sid)"
  unfolding INSECURE_COOKIE_JAR_WARNING_def sublist_def
  by (metis append.assoc)

lemma sublist_appendI1: "sublist xs ys \<Longrightarrow> sublist xs (ys @ zs)"
  unfolding sublist_def by (metis append.assoc)

text \<open>
  Claim C2. \<open>pre_process_data\<close> fails exactly when the decoding of the cookie field
  fails, so the warning never stands in the way of a load. When the decoding completes, one
  message of level \<open>warning\<close> is appended to the log if the flag is set and
  \<open>refactor_mode\<close> is false, and the log is unchanged otherwise. The message contains
  the bound host and the session id, and for a named session it ends with the text on
  upgrading all named sessions.
\<close>

theorem warning_iff_insecure_and_not_refactor:
  "(\<forall>e. decode_cookies L (cookie_jar s) data = Inl e \<longrightarrow> pre_process_data L s data = Inl e)
   \<and> (\<forall>flag J cs. decode_cookies L (cookie_jar s) data = Inr ((flag, J), cs) \<longrightarrow>
        (\<exists>s' data'. pre_process_data L s data = Inr (s', data') \<and> cookie_jar s' = J
           \<and> (if flag \<and> \<not> refactor_mode s
               then \<exists>w. env_log s' = env_log s @ [(w, ''warning'')]
                      \<and> sublist (bound_host s) w \<and> sublist (session_id s) w
                      \<and> (\<not> is_anonymous_session L (session_id s) \<longrightarrow>
                            sublist INSECURE_COOKIE_JAR_WARNING_FOR_NAMED_SESSIONS w)
                      \<and> w = INSECURE_COOKIE_JAR_WARNING (bound_host s) (session_id s) @
                            (if is_anonymous_session L (session_id s) then []
                             else INSECURE_COOKIE_JAR_WARNING_FOR_NAMED_SESSIONS)
               else env_log s' = env_log s)))"
proof (intro conjI allI impI)
  fix e
  assume "decode_cookies L (cookie_jar s) data = Inl e"
  then show "pre_process_data L s data = Inl e"
    by (simp add: pre_process_data_def)
next
  fix flag J cs
  assume d: "decode_cookies L (cookie_jar s) data = Inr ((flag, J), cs)"
  let ?w = "INSECURE_COOKIE_JAR_WARNING (bound_host s) (session_id s) @
              (if is_anonymous_session L (session_id s) then []
               else INSECURE_COOKIE_JAR_WARNING_FOR_NAMED_SESSIONS)"
  have w: "sublist (bound_host s) ?w" "sublist (session_id s) ?w"
    by (simp_all add: sublist_appendI1 sublist_warning_hostname sublist_warning_session_id)
  have n: "\<not> is_anonymous_session L (session_id s) \<longrightarrow>
      sublist INSECURE_COOKIE_JAR_WARNING_FOR_NAMED_SESSIONS ?w"
    by (simp add: sublist_def) (metis append_Nil2)
  obtain s' data' where r: "pre_process_data L s data = Inr (s', data')"
    and j: "cookie_jar s' = J"
    and l: "env_log s' = (if flag \<and> \<not> refactor_mode s then env_log s @ [(?w, ''warning'')]
                          else env_log s)"
    using d by (simp add: pre_process_data_def Let_def)
  show "\<exists>s' data'. pre_process_data L s data = Inr (s', data') \<and> cookie_jar s' = J
           \<and> (if flag \<and> \<not> refactor_mode s
               then \<exists>w. env_log s' = env_log s @ [(w, ''warning'')]
                      \<and> sublist (bound_host s) w \<and> sublist (session_id s) w
                      \<and> (\<not> is_anonymous_session L (session_id s) \<longrightarrow>
                            sublist INSECURE_COOKIE_JAR_WARNING_FOR_NAMED_SESSIONS w)
                      \<and> w = ?w
               else env_log s' = env_log s)"
    using r j l w n by auto
qed


theorem warning_iff_insecure_and_not_refactor_witness:
  "map_sum id (\<lambda>r. env_log (fst r)) (pre_process_data sample_lib sample_session
       [(KStr ''cookies'', PDict [(KStr ''a'', PDict [(KStr ''value'', PStr ''1'')])])])
     = Inr [(INSECURE_COOKIE_JAR_WARNING ''example.org'' ''work'' @
              INSECURE_COOKIE_JAR_WARNING_FOR_NAMED_SESSIONS, ''warning'')]
   \<and> map_sum id (\<lambda>r. env_log (fst r))
        (pre_process_data sample_lib (sample_session\<lparr>refactor_mode := True\<rparr>)
       [(KStr ''cookies'', PDict [(KStr ''a'', PDict [(KStr ''value'', PStr ''1'')])])])
     = Inr []"
proof -
  let ?D = "[(KStr ''cookies'', PDict [(KStr ''a'', PDict [(KStr ''value'', PStr ''1'')])])]"
  let ?J1 = "[([], [(KStr ''/'', [(KStr ''a'',
        \<lparr>ck_name = PStr ''a'', ck_value = PStr ''1'', ck_domain = [], ck_path = PStr ''/'',
         ck_expires = PNone, ck_secure = PBool False,
         ck_rest = PDict [(KStr ''HttpOnly'', PNone)]\<rparr>)])])]"
  let ?cs = "[PDict [(KStr ''name'', PStr ''a''), (KStr ''value'', PStr ''1'')]]"
  have a: "decode_cookies sample_lib [] ?D = Inr ((True, ?J1), ?cs)"
    by code_simp
  have s: "cookie_jar sample_session = []" "env_log sample_session = []"
    "bound_host sample_session = ''example.org''" "session_id sample_session = ''work''"
    "\<not> refactor_mode sample_session"
    "\<not> is_anonymous_session sample_lib ''work''"
    by (simp_all add: sample_session_def Session_def is_anonymous_session_def sample_lib_def)
  from a s have a1: "decode_cookies sample_lib (cookie_jar sample_session) ?D
      = Inr ((True, ?J1), ?cs)"
    by simp
  from a s have a2: "decode_cookies sample_lib
      (cookie_jar (sample_session\<lparr>refactor_mode := True\<rparr>)) ?D = Inr ((True, ?J1), ?cs)"
    by simp
  from warning_iff_insecure_and_not_refactor [of sample_lib sample_session ?D] a1 s
  have "map_sum id (\<lambda>r. env_log (fst r)) (pre_process_data sample_lib sample_session ?D)
     = Inr [(INSECURE_COOKIE_JAR_WARNING ''example.org'' ''work'' @
              INSECURE_COOKIE_JAR_WARNING_FOR_NAMED_SESSIONS, ''warning'')]"
    by auto
  moreover
  from warning_iff_insecure_and_not_refactor
    [of sample_lib "sample_session\<lparr>refactor_mode := True\<rparr>" ?D] a2 s
  have "map_sum id (\<lambda>r. env_log (fst r))
        (pre_process_data sample_lib (sample_session\<lparr>refactor_mode := True\<rparr>) ?D) = Inr []"
    by auto
  ultimately show ?thesis by simp
qed

subsection \<open>Locating a session\<close>

text \<open>
  For the name \<open>work\<close> and the host \<open>api.example.com:443\<close> the directory of the
  session file is named after host and port (\<open>host:port => host_port\<close>), not after the
  host alone.
\<close>

theorem named_session_path_counterexample:
  "map_sum id s_path (get_httpie_session sample_lib Inr [] (Path ''/cfg'') ''work''
       (Some ''api.example.com:443'') ''https://api.example.com:443/'' False)
     = Inr (Div (Div (Div (Path ''/cfg'') ''sessions'') ''api.example.com_443'') ''work.json'')
   \<and> Div (Div (Div (Path ''/cfg'') ''sessions'') ''api.example.com_443'') ''work.json''
     \<noteq> Div (Div (Div (Path ''/cfg'') ''sessions'') ''api.example.com'') ''work.json''"
  by (simp add: get_httpie_session_def sample_lib_def is_anonymous_session_def Session_def
      replace_colon_def SESSIONS_DIR_NAME_def)

lemma named_session:
  assumes "lib_sep L \<notin> set name" "h \<noteq> []"
  shows "get_httpie_session L load env config_dir name (Some h) url rm
        = load (Session
            (Div (Div (Div config_dir ''sessions'') (replace_colon h)) (name @ ''.json''))
            env (split_colon_first h) name rm)"
  using assms
  by (simp add: get_httpie_session_def is_anonymous_session_def SESSIONS_DIR_NAME_def)

lemma anonymous_session:
  assumes "lib_sep L \<in> set name"
  shows "\<exists>bh. get_httpie_session L load env config_dir name host url rm
        = load (Session (Path (lib_expanduser L name)) env bh (lib_expanduser L name) rm)"
  using assms
  by (simp add: get_httpie_session_def is_anonymous_session_def Let_def) blast

text \<open>
  Claim C3, as amended. For the named session \<open>work\<close> and the host
  \<open>api.example.com:443\<close> the session file is
  \<open><config-root>/sessions/api.example.com_443/work.json\<close> and the display id is
  \<open>work\<close>; in general a name without the path separator and a non-empty host give
  \<open><config-root>/sessions/<host with ':' replaced by '_'>/<name>.json\<close>. For a name
  containing the path separator, the home-expanded name is both the file path and the
  display id.
\<close>

theorem session_locator:
  "(lib_sep L \<notin> set ''work'' \<longrightarrow>
      get_httpie_session L load env config_dir ''work'' (Some ''api.example.com:443'') url rm
        = load (Session
            (Div (Div (Div config_dir ''sessions'') ''api.example.com_443'') ''work.json'')
            env ''api.example.com'' ''work'' rm))
   \<and> (lib_sep L \<notin> set name \<and> h \<noteq> [] \<longrightarrow>
      get_httpie_session L load env config_dir name (Some h) url rm
        = load (Session
            (Div (Div (Div config_dir ''sessions'') (replace_colon h)) (name @ ''.json''))
            env (split_colon_first h) name rm))
   \<and> (lib_sep L \<in> set name \<longrightarrow>
      (\<exists>bh. get_httpie_session L load env config_dir name host url rm
        = load (Session (Path (lib_expanduser L name)) env bh (lib_expanduser L name) rm)))"
proof (intro conjI impI)
  assume a: "lib_sep L \<notin> set ''work''"
  have r: "replace_colon ''api.example.com:443'' = ''api.example.com_443''"
    "split_colon_first ''api.example.com:443'' = ''api.example.com''"
    by (simp_all add: replace_colon_def split_colon_first_def)
  have "''api.example.com:443'' \<noteq> []" by simp
  from named_session [OF a this, of load env config_dir url rm] r
  show "get_httpie_session L load env config_dir ''work'' (Some ''api.example.com:443'') url rm
        = load (Session
            (Div (Div (Div config_dir ''sessions'') ''api.example.com_443'') ''work.json'')
            env ''api.example.com'' ''work'' rm)"
    by simp
next
  assume "lib_sep L \<notin> set name \<and> h \<noteq> []"
  then show "get_httpie_session L load env config_dir name (Some h) url rm
        = load (Session
            (Div (Div (Div config_dir ''sessions'') (replace_colon h)) (name @ ''.json''))
            env (split_colon_first h) name rm)"
    by (simp add: named_session)
next
  assume "lib_sep L \<in> set name"
  then show "\<exists>bh. get_httpie_session L load env config_dir name host url rm
        = load (Session (Path (lib_expanduser L name)) env bh (lib_expanduser L name) rm)"
    by (rule anonymous_session)
qed

theorem session_locator_witness:
  "get_httpie_session sample_lib Inr [] (Path ''/cfg'') ''work''
       (Some ''api.example.com:443'') ''https://api.example.com:443/'' False
     = Inr (Session
          (Div (Div (Div (Path ''/cfg'') ''sessions'') ''api.example.com_443'') ''work.json'')
          [] ''api.example.com'' ''work'' False)
   \<and> get_httpie_session sample_lib Inr [] (Path ''/cfg'') ''/tmp/x.json''
       None ''http://localhost/'' False
     = Inr (Session (Path ''/tmp/x.json'') [] ''localhost'' ''/tmp/x.json'' False)"
proof -
  have sep1: "lib_sep sample_lib \<notin> set ''work''"
    by (simp add: sample_lib_def)
  have sep2: "lib_sep sample_lib \<in> set ''/tmp/x.json''"
    by (simp add: sample_lib_def)
  note t1 = session_locator [where L = sample_lib and load = Inr and env = "[]"
      and config_dir = "Path ''/cfg''" and rm = False
      and url = "''https://api.example.com:443/''"]
  note t2 = session_locator [where L = sample_lib and load = Inr and env = "[]"
      and config_dir = "Path ''/cfg''" and rm = False and name = "''/tmp/x.json''"
      and host = None and url = "''http://localhost/''"]
  have a: "get_httpie_session sample_lib Inr [] (Path ''/cfg'') ''work''
       (Some ''api.example.com:443'') ''https://api.example.com:443/'' False
     = Inr (Session
          (Div (Div (Div (Path ''/cfg'') ''sessions'') ''api.example.com_443'') ''work.json'')
          [] ''api.example.com'' ''work'' False)"
    by (rule t1 [THEN conjunct1, THEN mp, OF sep1])
  have ex: "\<exists>bh. get_httpie_session sample_lib Inr [] (Path ''/cfg'') ''/tmp/x.json''
       None ''http://localhost/'' False
     = Inr (Session (Path (lib_expanduser sample_lib ''/tmp/x.json'')) [] bh
          (lib_expanduser sample_lib ''/tmp/x.json'') False)"
    by (rule t2 [THEN conjunct2, THEN conjunct2, THEN mp, OF sep2])
  have b: "get_httpie_session sample_lib Inr [] (Path ''/cfg'') ''/tmp/x.json''
       None ''http://localhost/'' False
     = Inr (Session (Path ''/tmp/x.json'') [] ''localhost'' ''/tmp/x.json'' False)"
    by (simp add: get_httpie_session_def sample_lib_def is_anonymous_session_def
        split_colon_first_def)
  from a b ex show ?thesis by blast
qed


subsection \<open>The bound host\<close>

text \<open>
  The host is taken as given: an explicit host in upper case stays in upper case.
\<close>

theorem bound_host_lowercase_counterexample:
  "map_sum id bound_host (get_httpie_session sample_lib Inr [] (Path ''/cfg'') ''work''
       (Some ''API.Example.COM:443'') ''https://API.Example.COM:443/'' False)
     = Inr ''API.Example.COM''
   \<and> ''API.Example.COM'' \<noteq> lower ''API.Example.COM''"
  by (simp add: get_httpie_session_def sample_lib_def is_anonymous_session_def Session_def
      split_colon_first_def lower_def lower_char_def)

lemma get_httpie_session_bound_host:
  "\<exists>p sid. get_httpie_session L load env config_dir name host url rm
     = load (Session p env
         (split_colon_first
            (let b = (case host of None \<Rightarrow> lib_url_as_host L url
                      | Some h \<Rightarrow> if h \<noteq> [] then h else lib_url_as_host L url)
             in if b = [] then ''localhost'' else b))
         sid rm)"
  by (cases "is_anonymous_session L name")
    ((simp add: get_httpie_session_def Let_def, blast)+)

lemma split_colon_first_localhost: "split_colon_first ''localhost'' = ''localhost''"
  by (simp add: split_colon_first_def)

lemma bound_host_Session: "bound_host (Session p env bh sid rm) = bh"
  by (simp add: Session_def)

lemma pre_process_data_bound_host:
  assumes "pre_process_data L s data = Inr (s', d')"
  shows "bound_host s' = bound_host s"
  using assms
  by (auto simp: pre_process_data_def Let_def ebind_Inr_iff)

lemma update_headers_bound_host:
  assumes "update_headers L s rh = Inr (s', rh')"
  shows "bound_host s' = bound_host s"
  using assms
  by (auto simp: update_headers_def ebind_Inr_iff)

text \<open>
  Claim C7, as amended. The session handed to \<open>load\<close> has as its bound host the text
  before the first colon of the explicit host argument when that is a non-empty string,
  otherwise of the host of the request URL, and \<open>localhost\<close> when neither yields a
  value; the case of the letters is kept. \<open>pre_process_data\<close>, \<open>update_headers\<close> and
  the auth setter leave it as it is (\<open>post_process_data\<close> returns the data only).
\<close>

theorem bound_host_derivation:
  "(\<exists>s0. get_httpie_session L load env config_dir name host url rm = load s0
      \<and> (\<forall>h. host = Some h \<and> h \<noteq> [] \<longrightarrow> bound_host s0 = split_colon_first h)
      \<and> ((host = None \<or> host = Some []) \<and> lib_url_as_host L url \<noteq> [] \<longrightarrow>
            bound_host s0 = split_colon_first (lib_url_as_host L url))
      \<and> ((host = None \<or> host = Some []) \<and> lib_url_as_host L url = [] \<longrightarrow>
            bound_host s0 = ''localhost''))
   \<and> (\<forall>s' data'. pre_process_data L s data = Inr (s', data') \<longrightarrow> bound_host s' = bound_host s)
   \<and> (\<forall>s' rh'. update_headers L s rh = Inr (s', rh') \<longrightarrow> bound_host s' = bound_host s)
   \<and> bound_host (fst (set_auth s auth)) = bound_host s"
proof (intro conjI allI impI)
  obtain p sid where g: "get_httpie_session L load env config_dir name host url rm
     = load (Session p env
         (split_colon_first
            (let b = (case host of None \<Rightarrow> lib_url_as_host L url
                      | Some h \<Rightarrow> if h \<noteq> [] then h else lib_url_as_host L url)
             in if b = [] then ''localhost'' else b))
         sid rm)"
    using get_httpie_session_bound_host by blast
  show "\<exists>s0. get_httpie_session L load env config_dir name host url rm = load s0
      \<and> (\<forall>h. host = Some h \<and> h \<noteq> [] \<longrightarrow> bound_host s0 = split_colon_first h)
      \<and> ((host = None \<or> host = Some []) \<and> lib_url_as_host L url \<noteq> [] \<longrightarrow>
            bound_host s0 = split_colon_first (lib_url_as_host L url))
      \<and> ((host = None \<or> host = Some []) \<and> lib_url_as_host L url = [] \<longrightarrow>
            bound_host s0 = ''localhost'')"
    by (rule exI, rule conjI, rule g)
      (auto simp: bound_host_Session split_colon_first_localhost)
next
  fix s' data'
  assume "pre_process_data L s data = Inr (s', data')"
  then show "bound_host s' = bound_host s" by (rule pre_process_data_bound_host)
next
  fix s' rh'
  assume "update_headers L s rh = Inr (s', rh')"
  then show "bound_host s' = bound_host s" by (rule update_headers_bound_host)
next
  show "bound_host (fst (set_auth s auth)) = bound_host s"
    by (simp add: set_auth_def)
qed


theorem bound_host_derivation_witness:
  "map_sum id bound_host (get_httpie_session sample_lib Inr [] (Path ''/cfg'') ''work''
       (Some ''API.Example.COM:443'') ''https://API.Example.COM:443/'' False)
     = Inr ''API.Example.COM''
   \<and> map_sum id bound_host (get_httpie_session sample_lib Inr [] (Path ''/cfg'') ''work''
       None ''http+unix://%2Ftmp%2Fsock/'' False)
     = Inr ''localhost''
   \<and> map_sum id (\<lambda>r. bound_host (fst r)) (pre_process_data sample_lib sample_session [])
     = Inr ''example.org''
   \<and> map_sum id (\<lambda>r. bound_host (fst r))
        (update_headers sample_lib sample_session [(''X-Token'', Some (HStr ''t''))])
     = Inr ''example.org''"
proof -
  note t1 = bound_host_derivation [where L = sample_lib and load = Inr and env = "[]"
      and config_dir = "Path ''/cfg''" and name = "''work''" and rm = False
      and host = "Some ''API.Example.COM:443''" and url = "''https://API.Example.COM:443/''"
      and s = sample_session and data = "[]" and rh = "[(''X-Token'', Some (HStr ''t''))]"]
  note t2 = bound_host_derivation [where L = sample_lib and load = Inr and env = "[]"
      and config_dir = "Path ''/cfg''" and name = "''work''" and rm = False
      and host = None and url = "''http+unix://%2Ftmp%2Fsock/''"]
  from t1 [THEN conjunct1] obtain s1 where s1:
    "get_httpie_session sample_lib Inr [] (Path ''/cfg'') ''work''
       (Some ''API.Example.COM:443'') ''https://API.Example.COM:443/'' False = Inr s1"
    "bound_host s1 = split_colon_first ''API.Example.COM:443''"
    by auto
  have a: "map_sum id bound_host (get_httpie_session sample_lib Inr [] (Path ''/cfg'') ''work''
       (Some ''API.Example.COM:443'') ''https://API.Example.COM:443/'' False)
     = Inr ''API.Example.COM''"
    unfolding s1(1) using s1(2) by (simp add: split_colon_first_def)
  have u: "lib_url_as_host sample_lib ''http+unix://%2Ftmp%2Fsock/'' = []"
    by (simp add: sample_lib_def)
  from t2 [THEN conjunct1] u obtain s2 where s2:
    "get_httpie_session sample_lib Inr [] (Path ''/cfg'') ''work''
       None ''http+unix://%2Ftmp%2Fsock/'' False = Inr s2"
    "bound_host s2 = ''localhost''"
    by auto
  have b: "map_sum id bound_host (get_httpie_session sample_lib Inr [] (Path ''/cfg'') ''work''
       None ''http+unix://%2Ftmp%2Fsock/'' False)
     = Inr ''localhost''"
    unfolding s2(1) using s2(2) by simp
  have bh: "bound_host sample_session = ''example.org''"
    by (simp add: sample_session_def Session_def)
  obtain s3 d3 where p: "pre_process_data sample_lib sample_session [] = Inr (s3, d3)"
    by (simp add: pre_process_data_def decode_cookies_def is_dict_def)
  from t1 [THEN conjunct2, THEN conjunct1] p bh have "bound_host s3 = ''example.org''"
    by simp
  with p have c: "map_sum id (\<lambda>r. bound_host (fst r))
      (pre_process_data sample_lib sample_session []) = Inr ''example.org''"
    by simp
  obtain s4 r4 where q: "update_headers sample_lib sample_session
      [(''X-Token'', Some (HStr ''t''))] = Inr (s4, r4)"
    by (simp add: update_headers_def headers_of_dict_def sample_session_def Session_def
        header_step_def lower_def lower_char_def ignored_prefix_def
        SESSION_IGNORED_HEADER_PREFIXES_def startswith_def)
  from t1 [THEN conjunct2, THEN conjunct2, THEN conjunct1] q bh
  have "bound_host s4 = ''example.org''"
    by simp
  with q have d: "map_sum id (\<lambda>r. bound_host (fst r))
      (update_headers sample_lib sample_session [(''X-Token'', Some (HStr ''t''))])
      = Inr ''example.org''"
    by simp
  from a b c d show ?thesis by simp
qed

subsection \<open>Saving the cookie field\<close>

lemma keys_dict_set: "fst ` set (dict_set d k v) = insert k (fst ` set d)"
  by (induction d k v rule: dict_set.induct) auto

lemma in_dict_set:
  "(k', v') \<in> set (dict_set d k v) \<Longrightarrow> (k', v') \<in> set d \<or> (k' = k \<and> v' = v)"
  by (induction d k v rule: dict_set.induct) (auto split: if_splits)

lemma materialize_cookie_name:
  assumes "materialize_cookie c = Inr m"
  shows "map_of m (KStr ''name'') = Some (ck_name c)"
  using assms
  by (auto simp: materialize_cookie_def Let_def split: pyval.splits if_splits)

lemma materialize_all_Inr:
  assumes "materialize_all cs = Inr ms"
  shows "list_all2 (\<lambda>c m. materialize_cookie c = Inr m) cs ms"
  using assms
  by (induction cs arbitrary: ms) (auto simp: ebind_Inr_iff)

lemma cookies_by_name_Inr:
  assumes "cookies_by_name d ms = Inr d'"
  shows "fst ` set d' = fst ` set d \<union>
           {k. \<exists>m\<in>set ms. \<exists>n. map_of m (KStr ''name'') = Some n \<and> py_key n = Inr k}
         \<and> (\<forall>(k, v)\<in>set d'. (k, v) \<in> set d \<or>
               (\<exists>m\<in>set ms. \<exists>n. map_of m (KStr ''name'') = Some n \<and> py_key n = Inr k
                  \<and> v = PDict (filter (\<lambda>(k', v). k' \<noteq> KStr ''name'') m)))"
  using assms
proof (induction ms arbitrary: d)
  case Nil
  then show ?case by auto
next
  case (Cons m ms)
  from Cons.prems obtain n k where n: "map_of m (KStr ''name'') = Some n" "py_key n = Inr k"
    and r: "cookies_by_name
      (dict_set d k (PDict (filter (\<lambda>(k', v). k' \<noteq> KStr ''name'') m))) ms = Inr d'"
    by (auto simp: ebind_Inr_iff split: option.splits)
  note ih = Cons.IH [OF r]
  have keys: "fst ` set d' = fst ` set d \<union>
           {k. \<exists>m\<in>set (m # ms). \<exists>n. map_of m (KStr ''name'') = Some n \<and> py_key n = Inr k}"
    using ih n by (auto simp: keys_dict_set)
  have vals: "(k', v') \<in> set d \<or>
               (\<exists>m\<in>set (m # ms). \<exists>n. map_of m (KStr ''name'') = Some n \<and> py_key n = Inr k'
                  \<and> v' = PDict (filter (\<lambda>(k', v). k' \<noteq> KStr ''name'') m))"
    if "(k', v') \<in> set d'" for k' v'
  proof -
    from ih that have "(k', v') \<in> set (dict_set d k
          (PDict (filter (\<lambda>(k', v). k' \<noteq> KStr ''name'') m))) \<or>
        (\<exists>m\<in>set ms. \<exists>n. map_of m (KStr ''name'') = Some n \<and> py_key n = Inr k'
                  \<and> v' = PDict (filter (\<lambda>(k', v). k' \<noteq> KStr ''name'') m))"
      by auto
    then show ?thesis
    proof
      assume "(k', v') \<in> set (dict_set d k
          (PDict (filter (\<lambda>(k', v). k' \<noteq> KStr ''name'') m)))"
      from in_dict_set [OF this] n show ?thesis by auto
    next
      assume "\<exists>m\<in>set ms. \<exists>n. map_of m (KStr ''name'') = Some n \<and> py_key n = Inr k'
                  \<and> v' = PDict (filter (\<lambda>(k', v). k' \<noteq> KStr ''name'') m)"
      then show ?thesis by auto
    qed
  qed
  show ?case
  proof (intro conjI ballI)
    show "fst ` set d' = fst ` set d \<union>
           {k. \<exists>m\<in>set (m # ms). \<exists>n. map_of m (KStr ''name'') = Some n \<and> py_key n = Inr k}"
      by (rule keys)
  next
    fix x
    assume xin: "x \<in> set d'"
    obtain k' v' where x: "x = (k', v')" by (cases x)
    from xin x vals [of k' v'] show "case x of (k, v) \<Rightarrow> (k, v) \<in> set d \<or>
               (\<exists>m\<in>set (m # ms). \<exists>n. map_of m (KStr ''name'') = Some n \<and> py_key n = Inr k
                  \<and> v = PDict (filter (\<lambda>(k', v). k' \<noteq> KStr ''name'') m))"
      by simp
  qed
qed

text \<open>
  Claim C5. When \<open>post_process_data\<close> returns, the cookie field of its result is made
  of the materialized cookies of the live jar: for a field that was not mapping-shaped it is
  the list of these records in the jar's order; for a mapping-shaped field it is a mapping
  whose keys are the names of the jar's cookies and whose values are the records without
  their \<open>name\<close>. The other entries of the data are untouched, and the saved field
  depends on the data only through the shape of its cookie field, never on its content.
\<close>

theorem save_recomputes_cookies_from_jar:
  "(\<forall>data'. post_process_data s data = Inr data' \<longrightarrow>
      (\<exists>ms. materialize_all (jar_iter (cookie_jar s)) = Inr ms
         \<and> (\<not> is_dict (map_of data (KStr ''cookies'')) \<longrightarrow>
               map_of data' (KStr ''cookies'') = Some (PList (map PDict ms)))
         \<and> (is_dict (map_of data (KStr ''cookies'')) \<longrightarrow>
               (\<exists>d. map_of data' (KStr ''cookies'') = Some (PDict d)
                  \<and> fst ` set d =
                      {k. \<exists>m\<in>set ms. \<exists>n. map_of m (KStr ''name'') = Some n \<and> py_key n = Inr k}
                  \<and> (\<forall>(k, v)\<in>set d. \<exists>m\<in>set ms. \<exists>n.
                        map_of m (KStr ''name'') = Some n \<and> py_key n = Inr k
                        \<and> v = PDict (filter (\<lambda>(k', v). k' \<noteq> KStr ''name'') m))))
         \<and> (\<forall>k. k \<noteq> KStr ''cookies'' \<longrightarrow> map_of data' k = map_of data k)))
   \<and> (is_dict (map_of data (KStr ''cookies'')) = is_dict (map_of other (KStr ''cookies'')) \<longrightarrow>
        map_sum id (\<lambda>d. map_of d (KStr ''cookies'')) (post_process_data s data)
          = map_sum id (\<lambda>d. map_of d (KStr ''cookies'')) (post_process_data s other))"
proof (intro conjI allI impI)
  fix data'
  assume p: "post_process_data s data = Inr data'"
  then obtain ms where ms: "materialize_all (jar_iter (cookie_jar s)) = Inr ms"
    by (auto simp: post_process_data_def Let_def ebind_Inr_iff)
  show "\<exists>ms. materialize_all (jar_iter (cookie_jar s)) = Inr ms
         \<and> (\<not> is_dict (map_of data (KStr ''cookies'')) \<longrightarrow>
               map_of data' (KStr ''cookies'') = Some (PList (map PDict ms)))
         \<and> (is_dict (map_of data (KStr ''cookies'')) \<longrightarrow>
               (\<exists>d. map_of data' (KStr ''cookies'') = Some (PDict d)
                  \<and> fst ` set d =
                      {k. \<exists>m\<in>set ms. \<exists>n. map_of m (KStr ''name'') = Some n \<and> py_key n = Inr k}
                  \<and> (\<forall>(k, v)\<in>set d. \<exists>m\<in>set ms. \<exists>n.
                        map_of m (KStr ''name'') = Some n \<and> py_key n = Inr k
                        \<and> v = PDict (filter (\<lambda>(k', v). k' \<noteq> KStr ''name'') m))))
         \<and> (\<forall>k. k \<noteq> KStr ''cookies'' \<longrightarrow> map_of data' k = map_of data k)"
  proof (cases "is_dict (map_of data (KStr ''cookies''))")
    case False
    with p ms have "data' = dict_set data (KStr ''cookies'') (PList (map PDict ms))"
      by (simp add: post_process_data_def)
    with False ms show ?thesis
      by (auto simp: map_of_dict_set)
  next
    case True
    with p ms obtain d where d: "cookies_by_name [] ms = Inr d"
      and d': "data' = dict_set data (KStr ''cookies'') (PDict d)"
      by (auto simp: post_process_data_def ebind_Inr_iff)
    from cookies_by_name_Inr [OF d] True ms d' show ?thesis
      by (auto simp: map_of_dict_set)
  qed
next
  assume "is_dict (map_of data (KStr ''cookies'')) = is_dict (map_of other (KStr ''cookies''))"
  then show "map_sum id (\<lambda>d. map_of d (KStr ''cookies'')) (post_process_data s data)
          = map_sum id (\<lambda>d. map_of d (KStr ''cookies'')) (post_process_data s other)"
    by (cases "materialize_all (jar_iter (cookie_jar s))";
        cases "cookies_by_name [] (projr (materialize_all (jar_iter (cookie_jar s))))")
      (simp_all add: post_process_data_def map_of_dict_set)
qed


theorem save_recomputes_cookies_from_jar_witness:
  "post_process_data
     (sample_session\<lparr>cookie_jar := [([], [(KStr ''/'', [(KStr ''a'',
        \<lparr>ck_name = PStr ''a'', ck_value = PStr ''1'', ck_domain = [], ck_path = PStr ''/'',
         ck_expires = PNone, ck_secure = PBool False,
         ck_rest = PDict [(KStr ''is_explicit_none'', PBool True)]\<rparr>)])])]\<rparr>)
     [(KStr ''headers'', PDict []), (KStr ''cookies'', PList [])]
   = Inr [(KStr ''headers'', PDict []),
          (KStr ''cookies'', PList [PDict [(KStr ''name'', PStr ''a''), (KStr ''expires'', PNone),
             (KStr ''path'', PStr ''/''), (KStr ''value'', PStr ''1''),
             (KStr ''domain'', PNone), (KStr ''secure'', PBool False)]])]
   \<and> post_process_data
     (sample_session\<lparr>cookie_jar := [([], [(KStr ''/'', [(KStr ''a'',
        \<lparr>ck_name = PStr ''a'', ck_value = PStr ''1'', ck_domain = [], ck_path = PStr ''/'',
         ck_expires = PNone, ck_secure = PBool False,
         ck_rest = PDict [(KStr ''is_explicit_none'', PBool True)]\<rparr>)])])]\<rparr>)
     [(KStr ''cookies'', PDict [(KStr ''stale'', PDict [(KStr ''value'', PStr ''0'')])])]
   = Inr [(KStr ''cookies'', PDict [(KStr ''a'', PDict [(KStr ''expires'', PNone),
             (KStr ''path'', PStr ''/''), (KStr ''value'', PStr ''1''),
             (KStr ''domain'', PNone), (KStr ''secure'', PBool False)])])]"
proof -
  let ?s = "sample_session\<lparr>cookie_jar := [([], [(KStr ''/'', [(KStr ''a'',
        \<lparr>ck_name = PStr ''a'', ck_value = PStr ''1'', ck_domain = [], ck_path = PStr ''/'',
         ck_expires = PNone, ck_secure = PBool False,
         ck_rest = PDict [(KStr ''is_explicit_none'', PBool True)]\<rparr>)])])]\<rparr>"
  let ?D1 = "[(KStr ''headers'', PDict []), (KStr ''cookies'', PList [])]"
  let ?D2 = "[(KStr ''cookies'', PDict [(KStr ''stale'', PDict [(KStr ''value'', PStr ''0'')])])]"
  let ?R1 = "[(KStr ''headers'', PDict []),
          (KStr ''cookies'', PList [PDict [(KStr ''name'', PStr ''a''), (KStr ''expires'', PNone),
             (KStr ''path'', PStr ''/''), (KStr ''value'', PStr ''1''),
             (KStr ''domain'', PNone), (KStr ''secure'', PBool False)]])]"
  let ?R2 = "[(KStr ''cookies'', PDict [(KStr ''a'', PDict [(KStr ''expires'', PNone),
             (KStr ''path'', PStr ''/''), (KStr ''value'', PStr ''1''),
             (KStr ''domain'', PNone), (KStr ''secure'', PBool False)])])]"
  have a: "post_process_data ?s ?D1 = Inr ?R1"
    by code_simp
  have b: "post_process_data ?s ?D2 = Inr ?R2"
    by code_simp
  have "\<not> is_dict (map_of ?D1 (KStr ''cookies''))"
    by (simp add: is_dict_def)
  with save_recomputes_cookies_from_jar [of ?s ?D1 ?D1, THEN conjunct1, THEN spec, THEN mp, OF a]
  have t1: "\<exists>ms. map_of ?R1 (KStr ''cookies'') = Some (PList (map PDict ms))"
    by blast
  have "is_dict (map_of ?D2 (KStr ''cookies''))"
    by (simp add: is_dict_def)
  with save_recomputes_cookies_from_jar [of ?s ?D2 ?D2, THEN conjunct1, THEN spec, THEN mp, OF b]
  have t2: "\<exists>d. map_of ?R2 (KStr ''cookies'') = Some (PDict d)"
    by blast
  from a b t1 t2 show ?thesis by blast
qed

subsection \<open>Merging request headers\<close>

lemma str_keys_Inr:
  assumes "str_keys d = Inr h"
  shows "d = map (\<lambda>(k, v). (KStr k, v)) h"
  using assms
  by (induction d arbitrary: h rule: str_keys.induct) (auto simp: ebind_Inr_iff)

lemma header_step_headers:
  assumes "header_step L (hs, J, rq) (name, val) = Inr (hs', J', rq')"
  shows "hs' = hs \<or>
         (\<exists>v. hs' = setitem hs name (PStr v) \<and> val \<noteq> None \<and> \<not> ignored_prefix name
            \<and> lower name \<noteq> ''cookie''
            \<and> \<not> (lower name = ''user-agent'' \<and> default_agent L val))"
  using assms
  by (auto simp: header_step_def ebind_Inr_iff default_agent_def
      split: option.splits hvalue.splits if_splits sum.splits)

lemma setitem_filter_other:
  assumes "lower name \<noteq> i"
  shows "filter (\<lambda>(k, v). lower k = i) (setitem hs name x) = filter (\<lambda>(k, v). lower k = i) hs"
  using assms
proof (induction hs)
  case Nil
  then show ?case by simp
next
  case (Cons a hs)
  obtain k v where a: "a = (k, v)" by (cases a)
  have "filter (\<lambda>(k, v). lower k = i) (filter (\<lambda>(k', _). lower k' \<noteq> lower name) hs)
      = filter (\<lambda>(k, v). lower k = i) hs"
    using Cons.prems by (induction hs) auto
  with Cons a show ?case by auto
qed

lemma header_loop_filter:
  assumes "header_loop L (hs, J, rq) items = Inr (hs', J', rq')"
    and "\<forall>(name, val)\<in>set items. lower name = i \<longrightarrow> never_stored L name val"
  shows "filter (\<lambda>(k, v). lower k = i) hs' = filter (\<lambda>(k, v). lower k = i) hs"
  using assms
proof (induction items arbitrary: hs J rq)
  case Nil
  then show ?case by simp
next
  case (Cons item items)
  obtain name val where item: "item = (name, val)" by (cases item)
  from Cons.prems(1) item obtain hs1 J1 rq1 where
    step: "header_step L (hs, J, rq) (name, val) = Inr (hs1, J1, rq1)" and
    rest: "header_loop L (hs1, J1, rq1) items = Inr (hs', J', rq')"
    by (auto simp: ebind_Inr_iff)
  from Cons.prems(2) have "\<forall>(name, val)\<in>set items. lower name = i \<longrightarrow> never_stored L name val"
    by simp
  from Cons.IH [OF rest this]
  have ih: "filter (\<lambda>(k, v). lower k = i) hs' = filter (\<lambda>(k, v). lower k = i) hs1" .
  have "filter (\<lambda>(k, v). lower k = i) hs1 = filter (\<lambda>(k, v). lower k = i) hs"
  proof (cases "lower name = i")
    case True
    with Cons.prems(2) item have "never_stored L name val" by simp
    with header_step_headers [OF step] have "hs1 = hs"
      by (auto simp: never_stored_def)
    then show ?thesis by simp
  next
    case False
    with header_step_headers [OF step] show ?thesis
      by (auto simp: setitem_filter_other)
  qed
  with ih show ?case by simp
qed

lemma find_filter_same: "find P (filter P xs) = find P xs"
  by (induction xs) auto

lemma getone_filter:
  "getone (filter (\<lambda>(k, v). lower k = lower n) hs) n = getone hs n"
proof -
  have "find (\<lambda>(k, v). lower k = lower n) (filter (\<lambda>(k, v). lower k = lower n) hs)
      = find (\<lambda>(k, v). lower k = lower n) hs"
    by (rule find_filter_same)
  then show ?thesis by (simp add: getone_def)
qed

lemma dict_of_headers_fold:
  "map_of (foldl (\<lambda>d (k, _). case getone hs k of None \<Rightarrow> d | Some v \<Rightarrow> dict_set d (KStr k) v)
            d xs) (KStr n)
   = (if n \<in> fst ` set xs \<and> getone hs n \<noteq> None then getone hs n else map_of d (KStr n))"
proof (induction xs arbitrary: d)
  case Nil
  then show ?case by simp
next
  case (Cons x xs)
  obtain k v where x: "x = (k, v)" by (cases x)
  show ?case
    unfolding x foldl_Cons Cons.IH
    by (auto simp: map_of_dict_set split: option.splits)
qed

lemma getone_key: "n \<in> fst ` set hs \<Longrightarrow> getone hs n \<noteq> None"
  by (induction hs) (auto simp: getone_def)

lemma dict_of_headers_lookup:
  "map_of (dict_of_headers hs) (KStr n) = (if n \<in> fst ` set hs then getone hs n else None)"
  unfolding dict_of_headers_def dict_of_headers_fold
  by (simp add: getone_key)

lemma dict_of_headers_filter:
  assumes "filter (\<lambda>(k, v). lower k = lower n) hs' = filter (\<lambda>(k, v). lower k = lower n) hs"
  shows "map_of (dict_of_headers hs') (KStr n) = map_of (dict_of_headers hs) (KStr n)"
proof -
  have k: "n \<in> fst ` set xs \<longleftrightarrow> n \<in> fst ` set (filter (\<lambda>(k, v). lower k = lower n) xs)"
    for xs :: "(string \<times> pyval) list"
    by force
  have "getone hs' n = getone hs n"
    using assms getone_filter [of n hs] getone_filter [of n hs'] by simp
  moreover have "n \<in> fst ` set hs' \<longleftrightarrow> n \<in> fst ` set hs"
    using assms k [of hs] k [of hs'] by simp
  ultimately show ?thesis
    by (simp add: dict_of_headers_lookup)
qed


lemma ignored_prefix_lower:
  "lower a = lower b \<Longrightarrow> ignored_prefix a = ignored_prefix b"
  by (simp add: ignored_prefix_def)

lemma map_of_str_keys:
  assumes "str_keys d = Inr h"
  shows "map_of d (KStr n) = map_of h n" and "KStr n \<in> fst ` set d \<longleftrightarrow> n \<in> fst ` set h"
proof -
  from str_keys_Inr [OF assms] have d: "d = map (\<lambda>(k, v). (KStr k, v)) h" .
  show "map_of d (KStr n) = map_of h n"
    unfolding d by (induction h) auto
  show "KStr n \<in> fst ` set d \<longleftrightarrow> n \<in> fst ` set h"
    unfolding d by force
qed

text \<open>
  Claim C9. When \<open>update_headers\<close> returns, the session's entry for a name starting
  with \<open>Content-\<close> or \<open>If-\<close> (compared in lower case) is the entry the stored
  headers already had for it: nothing incoming is stored under such a name, and a name that
  was not stored before is not stored after. Likewise, when every incoming
  \<open>User-Agent\<close> value is the tool's own agent string, the stored \<open>User-Agent\<close>
  entry is as before.
\<close>

theorem request_specific_headers_not_stored:
  assumes "update_headers L s rh = Inr (s', rh')"
  shows "\<exists>h0. headers_of_dict (s_headers s) = Inr h0
     \<and> (\<forall>n. ignored_prefix n \<longrightarrow>
           map_of (s_headers s') (KStr n) = map_of (dict_of_headers h0) (KStr n))
     \<and> (\<forall>n. ignored_prefix n \<and> KStr n \<notin> fst ` set (s_headers s) \<longrightarrow>
           map_of (s_headers s') (KStr n) = None)
     \<and> ((\<forall>(name, val)\<in>set rh. lower name = ''user-agent'' \<longrightarrow>
             val = None \<or> default_agent L val) \<longrightarrow>
          (\<forall>n. lower n = ''user-agent'' \<longrightarrow>
             map_of (s_headers s') (KStr n) = map_of (dict_of_headers h0) (KStr n)))"
proof -
  from assms obtain h0 hs' J' where h0: "headers_of_dict (s_headers s) = Inr h0"
    and loop: "header_loop L (h0, cookie_jar s, rh) rh = Inr (hs', J', rh')"
    and s': "s_headers s' = dict_of_headers hs'"
    by (auto simp: update_headers_def ebind_Inr_iff)
  have ign: "map_of (s_headers s') (KStr n) = map_of (dict_of_headers h0) (KStr n)"
    if n: "ignored_prefix n" for n
  proof -
    have "never_stored L name val" if "lower name = lower n" for name val
      using n ignored_prefix_lower [OF that] by (simp add: never_stored_def)
    then have "\<forall>(name, val)\<in>set rh. lower name = lower n \<longrightarrow> never_stored L name val"
      by blast
    from dict_of_headers_filter [OF header_loop_filter [OF loop this]] s' show ?thesis
      by simp
  qed
  have absent: "map_of (s_headers s') (KStr n) = None"
    if n: "ignored_prefix n \<and> KStr n \<notin> fst ` set (s_headers s)" for n
  proof -
    from n h0 have "n \<notin> fst ` set h0"
      using map_of_str_keys(2) [of "s_headers s" h0 n] by (simp add: headers_of_dict_def)
    with ign n show ?thesis
      by (simp add: dict_of_headers_lookup)
  qed
  have ua: "map_of (s_headers s') (KStr n) = map_of (dict_of_headers h0) (KStr n)"
    if d: "\<forall>(name, val)\<in>set rh. lower name = ''user-agent'' \<longrightarrow> val = None \<or> default_agent L val"
      and n: "lower n = ''user-agent''" for n
  proof -
    have "never_stored L name val" if "(name, val) \<in> set rh" "lower name = lower n"
      for name val
    proof -
      from that n have "lower name = ''user-agent''" by simp
      moreover from d that(1) this have "val = None \<or> default_agent L val" by blast
      ultimately show ?thesis unfolding never_stored_def by blast
    qed
    then have "\<forall>(name, val)\<in>set rh. lower name = lower n \<longrightarrow> never_stored L name val"
      by blast
    from dict_of_headers_filter [OF header_loop_filter [OF loop this]] s' show ?thesis
      by simp
  qed
  show ?thesis
  proof (intro exI conjI allI impI)
    show "headers_of_dict (s_headers s) = Inr h0" by (rule h0)
  next
    fix n assume "ignored_prefix n"
    then show "map_of (s_headers s') (KStr n) = map_of (dict_of_headers h0) (KStr n)"
      by (rule ign)
  next
    fix n assume "ignored_prefix n \<and> KStr n \<notin> fst ` set (s_headers s)"
    then show "map_of (s_headers s') (KStr n) = None"
      by (rule absent)
  next
    fix n
    assume "\<forall>(name, val)\<in>set rh. lower name = ''user-agent'' \<longrightarrow>
             val = None \<or> default_agent L val" "lower n = ''user-agent''"
    then show "map_of (s_headers s') (KStr n) = map_of (dict_of_headers h0) (KStr n)"
      by (rule ua)
  qed
qed


theorem request_specific_headers_not_stored_witness:
  "map_sum id (\<lambda>r. s_headers (fst r))
     (update_headers sample_lib
        (sample_session\<lparr>s_headers := [(KStr ''User-Agent'', PStr ''MyClient/1.0'')]\<rparr>)
        [(''Content-Type'', Some (HStr ''application/json'')),
         (''If-None-Match'', Some (HStr ''abc'')),
         (''User-Agent'', Some (HStr ''HTTPie/3.2.1'')),
         (''X-Token'', Some (HStr ''t''))])
   = Inr [(KStr ''User-Agent'', PStr ''MyClient/1.0''), (KStr ''X-Token'', PStr ''t'')]
   \<and> ignored_prefix ''Content-Type'' \<and> ignored_prefix ''If-None-Match''
   \<and> ignored_prefix ''content-length''"
proof -
  let ?s = "sample_session\<lparr>s_headers := [(KStr ''User-Agent'', PStr ''MyClient/1.0'')]\<rparr>"
  let ?rh = "[(''Content-Type'', Some (HStr ''application/json'')),
         (''If-None-Match'', Some (HStr ''abc'')),
         (''User-Agent'', Some (HStr ''HTTPie/3.2.1'')),
         (''X-Token'', Some (HStr ''t''))]"
  let ?s' = "sample_session\<lparr>s_headers :=
      [(KStr ''User-Agent'', PStr ''MyClient/1.0''), (KStr ''X-Token'', PStr ''t'')],
      cookie_jar := []\<rparr>"
  have a: "update_headers sample_lib ?s ?rh = Inr (?s', ?rh)"
    by code_simp
  from request_specific_headers_not_stored [OF a]
  have t: "\<exists>h0. headers_of_dict (s_headers ?s) = Inr h0" by blast
  have i: "ignored_prefix ''Content-Type''" "ignored_prefix ''If-None-Match''"
    "ignored_prefix ''content-length''"
    by code_simp+
  have "map_sum id (\<lambda>r. s_headers (fst r)) (update_headers sample_lib ?s ?rh)
      = Inr [(KStr ''User-Agent'', PStr ''MyClient/1.0''), (KStr ''X-Token'', PStr ''t'')]"
    unfolding a by simp
  with i t show ?thesis by blast
qed

subsection \<open>Cookie headers\<close>

text \<open>
  With more than one \<open>Cookie\<close> instance in the incoming map, \<open>remove\<close> is applied
  to the list that \<open>getall\<close> returned, and the map itself is never changed.
\<close>

lemma header_step_several_cookie_headers:
  assumes "header_step L (hs, J, rq) (name, val) = Inr (hs', J', rq')"
    and "length (filter (\<lambda>(k, v). lower k = ''cookie'') rq) > 1"
  shows "rq' = rq"
  using assms
  by (auto simp: header_step_def ebind_Inr_iff getall_def Let_def
      split: option.splits hvalue.splits if_splits)

lemma header_loop_several_cookie_headers:
  assumes "header_loop L (hs, J, rq) items = Inr (hs', J', rq')"
    and "length (filter (\<lambda>(k, v). lower k = ''cookie'') rq) > 1"
  shows "rq' = rq"
  using assms
proof (induction items arbitrary: hs J)
  case Nil
  then show ?case by simp
next
  case (Cons item items)
  obtain name val where item: "item = (name, val)" by (cases item)
  from Cons.prems(1) item obtain hs1 J1 rq1 where
    step: "header_step L (hs, J, rq) (name, val) = Inr (hs1, J1, rq1)" and
    rest: "header_loop L (hs1, J1, rq1) items = Inr (hs', J', rq')"
    by (auto simp: ebind_Inr_iff)
  from header_step_several_cookie_headers [OF step Cons.prems(2)] have "rq1 = rq" .
  with rest Cons.IH Cons.prems(2) show ?case by blast
qed

lemma several_cookie_headers_all_kept:
  assumes "update_headers L s rh = Inr (s', rh')"
    and "length (filter (\<lambda>(k, v). lower k = ''cookie'') rh) > 1"
  shows "rh' = rh"
  using assms
  by (auto simp: update_headers_def ebind_Inr_iff dest: header_loop_several_cookie_headers)

text \<open>
  Claim C4, evaluated. For the two instances \<open>Cookie: a=1\<close> and \<open>Cookie: b=2\<close>
  both cookies reach the jar, yet both instances are still in the incoming map when
  \<open>update_headers\<close> returns, where the claim has each consumed instance removed. A
  single instance \<open>Cookie: a=1; b=2\<close> is removed.
\<close>

theorem cookie_header_instances_not_removed:
  "map_sum id snd (update_headers sample_lib sample_session
       [(''Cookie'', Some (HStr ''a=1'')), (''Cookie'', Some (HStr ''b=2''))])
     = Inr [(''Cookie'', Some (HStr ''a=1'')), (''Cookie'', Some (HStr ''b=2''))]
   \<and> map_sum id (\<lambda>r. map ck_name (jar_iter (cookie_jar (fst r))))
       (update_headers sample_lib sample_session
       [(''Cookie'', Some (HStr ''a=1'')), (''Cookie'', Some (HStr ''b=2''))])
     = Inr [PStr ''a'', PStr ''b'']
   \<and> map_sum id snd (update_headers sample_lib sample_session
       [(''Cookie'', Some (HStr ''a=1; b=2'')), (''Accept'', Some (HStr ''*/*''))])
     = Inr [(''Accept'', Some (HStr ''*/*''))]"
  by code_simp

end
